theory Spec2Isabelle
  imports Main
begin

section \<open>The debug-session mediator of cudaGdbSession.ts\<close>

text \<open>
  The session sits between the debug adapter protocol and the machine interface of the
  debugger backend. Every suspension point of the source is an awaited backend command,
  so an asynchronous method is modelled as a function that threads the session state
  and the state of the backend, and records every command it issues. A rejected promise
  (a thrown error) is the left injection of a sum type.
\<close>

subsection \<open>Focus model\<close>

text \<open>
  \<open>types.CudaDim\<close> and \<open>types.CudaFocus\<close>: every component is optional, as the
  \<open>?.\<close> and \<open>??\<close> of \<open>changeCudaFocusRequest\<close> show. A thread reference is
  \<open>number | types.CudaFocus\<close>.
\<close>

datatype cuda_dim = CudaDim (dim_x: "int option") (dim_y: "int option") (dim_z: "int option")

datatype cuda_focus =
    Software (blockIdx: "cuda_dim option") (threadIdx: "cuda_dim option")
  | Hardware (sm: "int option") (warp: "int option") (lane: "int option")

datatype thread_ref = HostThread int | DeviceFocus cuda_focus

text \<open>\<open>VariableObjectStore.isCudaFocus\<close>: the reference is an object with a \<open>type\<close> member.\<close>

fun isCudaFocus :: "thread_ref option \<Rightarrow> bool" where
  "isCudaFocus (Some (DeviceFocus f)) = True"
| "isCudaFocus _ = False"

text \<open>
  \<open>types.RealizedFrameReference\<close>. The source compares \<open>frameId\<close> with \<open>null\<close>,
  so the frame id is optional here; every frame built in this file carries a number.
\<close>

record frame_ref =
  frameId :: "int option"
  focus :: "thread_ref option"

subsection \<open>Backend commands\<close>

text \<open>
  The commands this file sends. \<open>utils.formatSetFocusCommand\<close> is not part of the
  sources at hand, so the focus-select command is kept as a constructor that carries
  the focus it formats.
\<close>

datatype mi_command =
    StackListFrames "int option"
  | StackListVariables "(int \<times> int) option"
  | VarCreate string
  | VarUpdateAll
  | VarDelete string
  | SetCudaFocus cuda_focus
  | ThreadSelect int
  | FrameSelect int
  | DataListRegisterValues "int list"
  | CudaInfoDevices

record var_create_resp =
  vc_name :: string
  vc_numchild :: string
  vc_value :: string
  vc_type :: string

text \<open>\<open>VarUpdateChanges\<close>, with the fields the store reads.\<close>

record var_update_change =
  ch_name :: string
  ch_value :: string
  ch_type_changed :: string
  ch_new_type :: string
  ch_new_num_children :: string

text \<open>
  The backend answers each command from its own state \<open>'b\<close>, with a result or an
  error message. Nothing is assumed about it: it is a parameter of every operation.
\<close>

record 'b backend =
  stackListFrames :: "int option \<Rightarrow> 'b \<Rightarrow> (string + string option list) \<times> 'b"
  stackListVariables :: "(int \<times> int) option \<Rightarrow> 'b \<Rightarrow> (string + (string \<times> string) list) \<times> 'b"
  varCreate :: "string \<Rightarrow> 'b \<Rightarrow> (string + var_create_resp) \<times> 'b"
  varUpdate :: "'b \<Rightarrow> (string + var_update_change list) \<times> 'b"
  registerValues :: "int list \<Rightarrow> 'b \<Rightarrow> (string + (string \<times> string) list) \<times> 'b"
  plainCommand :: "mi_command \<Rightarrow> 'b \<Rightarrow> (string + unit) \<times> 'b"

text \<open>The backend's state together with the commands issued so far, oldest first.\<close>

record 'b world =
  bstate :: 'b
  issued :: "mi_command list"

definition issue :: "mi_command \<Rightarrow> ('b \<Rightarrow> 'r \<times> 'b) \<Rightarrow> 'b world \<Rightarrow> 'r \<times> 'b world" where
  "issue c run w =
     (case run (bstate w) of
        (r, b') \<Rightarrow> (r, w\<lparr>bstate := b', issued := issued w @ [c]\<rparr>))"

text \<open>\<open>gdb.sendCommand\<close> for a command whose answer is not read.\<close>

definition sendCommand :: "'b backend \<Rightarrow> mi_command \<Rightarrow> 'b world \<Rightarrow> (string + unit) \<times> 'b world" where
  "sendCommand be c w = issue c (plainCommand be c) w"

text \<open>
  \<open>gdb.sendCommands\<close> of the adapter library sends the commands one after the other
  and stops at the first that fails.
\<close>

fun sendCommands :: "'b backend \<Rightarrow> mi_command list \<Rightarrow> 'b world \<Rightarrow> (string + unit) \<times> 'b world" where
  "sendCommands be [] w = (Inr (), w)"
| "sendCommands be (c # cs) w =
     (case sendCommand be c w of
        (Inl e, w') \<Rightarrow> (Inl e, w')
      | (Inr u, w') \<Rightarrow> sendCommands be cs w')"

subsection \<open>Numbers and their rendering\<close>

text \<open>
  A JavaScript number that came out of \<open>Number.parseInt\<close>: an integer or \<open>NaN\<close>.
  Integers are exact here. The source's numbers are doubles: they agree with the
  integers up to \<open>2^53\<close> in absolute value and are rounded beyond, so the model
  covers raw values within that range only.
\<close>

datatype js_number = NaN | Num int

fun isNaN :: "js_number \<Rightarrow> bool" where
  "isNaN NaN = True"
| "isNaN (Num v) = False"

definition is_space :: "char \<Rightarrow> bool" where
  "is_space c = (c \<in> set [CHR 0x09, CHR 0x0A, CHR 0x0B, CHR 0x0C, CHR 0x0D, CHR '' ''])"

definition digit_value :: "char \<Rightarrow> nat option" where
  "digit_value c =
     (let n = of_char c :: nat in
      if 48 \<le> n \<and> n \<le> 57 then Some (n - 48)
      else if 97 \<le> n \<and> n \<le> 122 then Some (n - 87)
      else if 65 \<le> n \<and> n \<le> 90 then Some (n - 55)
      else None)"

definition is_digit :: "nat \<Rightarrow> char \<Rightarrow> bool" where
  "is_digit radix c = (case digit_value c of None \<Rightarrow> False | Some d \<Rightarrow> d < radix)"

fun digits_value :: "nat \<Rightarrow> nat \<Rightarrow> string \<Rightarrow> nat" where
  "digits_value radix acc [] = acc"
| "digits_value radix acc (c # cs) =
     digits_value radix (acc * radix + (case digit_value c of None \<Rightarrow> 0 | Some d \<Rightarrow> d)) cs"

text \<open>
  \<open>Number.parseInt\<close> without a radix: leading white space is skipped, a sign is
  read, a \<open>0x\<close> or \<open>0X\<close> prefix selects radix 16, and the longest run of digits
  is the value; no digit at all gives \<open>NaN\<close>. Strings are byte strings here, and
  white space is the ASCII white space.
\<close>

definition parseInt :: "string \<Rightarrow> js_number" where
  "parseInt s =
     (let s1 = dropWhile is_space s;
          negative = (s1 \<noteq> [] \<and> hd s1 = CHR ''-'');
          s2 = (if s1 \<noteq> [] \<and> (hd s1 = CHR ''-'' \<or> hd s1 = CHR ''+'') then tl s1 else s1);
          hex = (take 2 s2 = ''0x'' \<or> take 2 s2 = ''0X'');
          radix = (if hex then 16 else 10);
          s3 = (if hex then drop 2 s2 else s2);
          ds = takeWhile (is_digit radix) s3
      in if ds = [] then NaN
         else Num ((if negative then -1 else 1) * int (digits_value radix 0 ds)))"

definition digit_char :: "nat \<Rightarrow> char" where
  "digit_char d = (if d < 10 then char_of (48 + d) else char_of (87 + d))"

text \<open>
  The digits of a natural number, most significant first, as
  \<open>Number.prototype.toString(radix)\<close> writes them (the source uses radix 10 and 16).
  Beyond \<open>2^53\<close> the source writes the digits of the rounded double, and in radix 10
  it switches to exponent notation from \<open>10^21\<close> on; such values are outside the
  model.
\<close>

function nat_to_radix :: "nat \<Rightarrow> nat \<Rightarrow> string" where
  "nat_to_radix radix n =
     (if n < radix \<or> radix < 2 then [digit_char n]
      else nat_to_radix radix (n div radix) @ [digit_char (n mod radix)])"
  by pat_completeness auto
termination
  by (relation "measure (\<lambda>(radix, n). n)") auto

declare nat_to_radix.simps [simp del]

fun toString :: "nat \<Rightarrow> js_number \<Rightarrow> string" where
  "toString radix NaN = ''NaN''"
| "toString radix (Num v) =
     (if v < 0 then CHR ''-'' # nat_to_radix radix (nat (- v))
      else nat_to_radix radix (nat v))"

definition toFixedHex :: "js_number \<Rightarrow> nat \<Rightarrow> string" where
  "toFixedHex v width =
     (let hexStr = toString 16 v in
      if hexStr = ''NaN'' then hexStr
      else ''0x'' @ replicate (max 0 (width - length hexStr)) CHR ''0'' @ hexStr)"

subsection \<open>Register groups\<close>

record register =
  ordinal :: nat
  reg_name :: string

record register_group =
  groupName :: string
  groupPattern :: string
  isPredicate :: bool
  isHidden :: bool
  registers :: "register list"

definition formatRegister :: "js_number \<Rightarrow> register_group \<Rightarrow> string" where
  "formatRegister v registerGroup = toFixedHex v 8"

text \<open>A protocol variable: its name and its rendered value.\<close>

datatype variable = Variable string string

text \<open>
  A JavaScript \<open>Map\<close> keeps its keys in insertion order; setting a key that is present
  replaces the value in place.
\<close>

fun map_set :: "'k \<Rightarrow> 'v \<Rightarrow> ('k \<times> 'v) list \<Rightarrow> ('k \<times> 'v) list" where
  "map_set k v [] = [(k, v)]"
| "map_set k v (p # ps) = (if fst p = k then (k, v) # ps else p # map_set k v ps)"

definition map_delete :: "'k \<Rightarrow> ('k \<times> 'v) list \<Rightarrow> ('k \<times> 'v) list" where
  "map_delete k m = filter (\<lambda>p. fst p \<noteq> k) m"

definition set_pairs :: "(string \<times> string) list \<Rightarrow> (js_number \<times> string) list \<Rightarrow> (js_number \<times> string) list" where
  "set_pairs pairs m = fold (\<lambda>pair acc. map_set (parseInt (fst pair)) (snd pair) acc) pairs m"

text \<open>
  The fallback of \<open>registersRequest\<close>: one command per register, and \<open>N/A\<close> for a
  register whose value cannot be read.
\<close>

fun fetch_each :: "'b backend \<Rightarrow> register list \<Rightarrow> (js_number \<times> string) list \<Rightarrow> 'b world
    \<Rightarrow> (js_number \<times> string) list \<times> 'b world" where
  "fetch_each be [] m w = (m, w)"
| "fetch_each be (reg # regs) m w =
     (case issue (DataListRegisterValues [int (ordinal reg)])
             (registerValues be [int (ordinal reg)]) w of
        (Inr pairs, w') \<Rightarrow> fetch_each be regs (set_pairs pairs m) w'
      | (Inl e, w') \<Rightarrow> fetch_each be regs (map_set (Num (int (ordinal reg))) ''N/A'' m) w')"

definition fetch_values :: "'b backend \<Rightarrow> register_group \<Rightarrow> 'b world \<Rightarrow> (js_number \<times> string) list \<times> 'b world" where
  "fetch_values be grp w =
     (let registersToFetch = map (\<lambda>r. int (ordinal r)) (registers grp) in
      case issue (DataListRegisterValues registersToFetch) (registerValues be registersToFetch) w of
        (Inr pairs, w') \<Rightarrow> (set_pairs pairs [], w')
      | (Inl e, w') \<Rightarrow> fetch_each be (registers grp) [] w')"

text \<open>The body of \<open>group.registers.forEach\<close>: the variables one register contributes.\<close>

definition render_register :: "register_group \<Rightarrow> (js_number \<times> string) list \<Rightarrow> register \<Rightarrow> variable list" where
  "render_register grp registerValuesMap reg =
     (case map_of registerValuesMap (Num (int (ordinal reg))) of
        None \<Rightarrow> []
      | Some rawRegisterValue \<Rightarrow>
          if rawRegisterValue = [] then []
          else
            (let numericalValue = parseInt rawRegisterValue in
             (if isNaN numericalValue then [Variable (reg_name reg) rawRegisterValue] else [])
             @ (if isPredicate grp
                then [Variable (reg_name reg) (toString 10 numericalValue)]
                else [Variable (reg_name reg) (formatRegister numericalValue grp)])))"

text \<open>\<open>registersRequest\<close> for a reference that names a register group.\<close>

definition registersRequest :: "'b backend \<Rightarrow> register_group \<Rightarrow> 'b world \<Rightarrow> variable list \<times> 'b world" where
  "registersRequest be grp w =
     (case fetch_values be grp w of
        (registerValuesMap, w') \<Rightarrow>
          (concat (map (render_register grp registerValuesMap) (registers grp)), w'))"

subsection \<open>Variable object store\<close>

datatype var_kind = Watch | Local

text \<open>\<open>SimplifiedVarObjType\<close>.\<close>

record var_obj =
  varname :: string
  expression :: string
  numchild :: string
  vo_value :: string
  vo_type :: string
  vo_kind :: var_kind

record exec_context =
  ctx_threadId :: "thread_ref option"
  ctx_frameId :: "int option"
  resumed :: "bool option"
  functionName :: "string option"

text \<open>
  \<open>VariableObjectStore\<close>: \<open>byName\<close> is a \<open>Map\<close> from the name of a variable object
  to the object, and \<open>gdb\<close> may be undefined.
\<close>

record var_store =
  execContext :: exec_context
  byName :: "(string \<times> var_obj) list"
  gdb_defined :: bool

definition empty_context :: exec_context where
  "empty_context = \<lparr>ctx_threadId = None, ctx_frameId = None, resumed = None, functionName = None\<rparr>"

definition new_store :: var_store where
  "new_store = \<lparr>execContext = empty_context, byName = [], gdb_defined = True\<rparr>"

text \<open>
  Modelled from the spec: \<open>utils.equalsCudaFocus\<close> is not among the sources at hand;
  the specification makes the equality of two foci structural across all present fields.
\<close>

definition equalsCudaFocus :: "cuda_focus option \<Rightarrow> cuda_focus option \<Rightarrow> bool" where
  "equalsCudaFocus f g = (f = g)"

definition values_of_kind :: "var_kind \<Rightarrow> var_store \<Rightarrow> var_obj list" where
  "values_of_kind k st = filter (\<lambda>vo. vo_kind vo = k) (map snd (byName st))"

fun threadIdChanged :: "var_store \<Rightarrow> thread_ref \<Rightarrow> bool" where
  "threadIdChanged st threadId =
     (case ctx_threadId (execContext st) of
        None \<Rightarrow> True
      | Some stored \<Rightarrow>
          (case threadId of
             HostThread n \<Rightarrow> threadId \<noteq> stored
           | DeviceFocus f \<Rightarrow>
               (case stored of
                  HostThread m \<Rightarrow> True
                | DeviceFocus g \<Rightarrow> \<not> equalsCudaFocus (Some f) (Some g))))"

definition updateVarObj :: "var_obj \<Rightarrow> var_update_change \<Rightarrow> var_obj" where
  "updateVarObj varObj upd =
     (let v = varObj\<lparr>vo_value := ch_value upd\<rparr> in
      if ch_type_changed upd = ''true''
      then v\<lparr>vo_type := ch_new_type upd, numchild := ch_new_num_children upd\<rparr>
      else v)"

text \<open>
  \<open>getCurrentFunction\<close>: the function of frame 0. Reading a frame out of an empty
  answer, or sending through an undefined backend, is a type error of the runtime.
\<close>

definition getCurrentFunction :: "'b backend \<Rightarrow> var_store \<Rightarrow> thread_ref \<Rightarrow> 'b world
    \<Rightarrow> (string + string option) \<times> 'b world" where
  "getCurrentFunction be st threadId w =
     (let backendThreadId = (case threadId of HostThread n \<Rightarrow> Some n | DeviceFocus f \<Rightarrow> None) in
      if \<not> gdb_defined st then (Inl ''TypeError'', w)
      else
        case issue (StackListFrames backendThreadId) (stackListFrames be backendThreadId) w of
          (Inl e, w') \<Rightarrow> (Inl e, w')
        | (Inr [], w') \<Rightarrow> (Inl ''TypeError'', w')
        | (Inr (frameInfo # rest), w') \<Rightarrow> (Inr frameInfo, w'))"

definition apply_change :: "var_update_change \<Rightarrow> (string \<times> var_obj) list \<Rightarrow> (string \<times> var_obj) list" where
  "apply_change ch m =
     (case map_of m (ch_name ch) of
        None \<Rightarrow> m
      | Some varObj \<Rightarrow>
          if vo_kind varObj \<noteq> Local then m
          else map_set (ch_name ch) (updateVarObj varObj ch) m)"

text \<open>\<open>update\<close>: one refresh command, applied to the stored local objects.\<close>

definition update :: "'b backend \<Rightarrow> var_store \<Rightarrow> 'b world
    \<Rightarrow> (string + var_update_change list) \<times> var_store \<times> 'b world" where
  "update be st w =
     (if \<not> gdb_defined st then (Inl ''TypeError'', st, w)
      else
        case issue VarUpdateAll (varUpdate be) w of
          (Inl e, w') \<Rightarrow> (Inl e, st, w')
        | (Inr changes, w') \<Rightarrow> (Inr changes, st\<lparr>byName := fold apply_change changes (byName st)\<rparr>, w'))"

definition updateLocals :: "'b backend \<Rightarrow> var_store \<Rightarrow> 'b world \<Rightarrow> (string + unit) \<times> var_store \<times> 'b world" where
  "updateLocals be st w =
     (case update be st w of
        (Inl e, st', w') \<Rightarrow> (Inl e, st', w')
      | (Inr changes, st', w') \<Rightarrow> (Inr (), st', w'))"

text \<open>\<open>clear\<close>: delete the objects of one kind in the backend, then forget them.\<close>

definition clear :: "'b backend \<Rightarrow> var_kind \<Rightarrow> var_store \<Rightarrow> 'b world \<Rightarrow> (string + unit) \<times> var_store \<times> 'b world" where
  "clear be k st w =
     (let stackVarObjects = values_of_kind k st in
      case (if gdb_defined st then sendCommands be (map (\<lambda>vo. VarDelete (varname vo)) stackVarObjects) w
            else (Inr (), w)) of
        (Inl e, w') \<Rightarrow> (Inl e, st, w')
      | (Inr u, w') \<Rightarrow>
          (Inr (), st\<lparr>byName := fold (\<lambda>vo m. map_delete (varname vo) m) stackVarObjects (byName st)\<rparr>, w'))"

fun createLocals_loop :: "'b backend \<Rightarrow> (string \<times> string) list \<Rightarrow> var_store \<Rightarrow> 'b world
    \<Rightarrow> (string + unit) \<times> var_store \<times> 'b world" where
  "createLocals_loop be [] st w = (Inr (), st, w)"
| "createLocals_loop be (stackLocal # rest) st w =
     (case issue (VarCreate (fst stackLocal)) (varCreate be (fst stackLocal)) w of
        (Inl e, w') \<Rightarrow> (Inl e, st, w')
      | (Inr varCreateResp, w') \<Rightarrow>
          (let stackVarObj = \<lparr>varname = vc_name varCreateResp, expression = fst stackLocal,
                 numchild = vc_numchild varCreateResp, vo_value = vc_value varCreateResp,
                 vo_type = vc_type varCreateResp, vo_kind = Local\<rparr>
           in createLocals_loop be rest
                (st\<lparr>byName := map_set (varname stackVarObj) stackVarObj (byName st)\<rparr>) w'))"

definition createLocals :: "'b backend \<Rightarrow> (string \<times> string) list \<Rightarrow> var_store \<Rightarrow> 'b world
    \<Rightarrow> (string + unit) \<times> var_store \<times> 'b world" where
  "createLocals be stackLocalsList st w =
     (if \<not> gdb_defined st then (Inr (), st, w) else createLocals_loop be stackLocalsList st w)"

text \<open>
  The map \<open>oldLocals\<close> of \<open>validate\<close>, from the expression of each stored local
  object to the object.
\<close>

definition oldLocals :: "var_store \<Rightarrow> (string \<times> var_obj) list" where
  "oldLocals st = fold (\<lambda>vo m. map_set (expression vo) vo m) (values_of_kind Local st) []"

definition shape_differs :: "var_store \<Rightarrow> (string \<times> string) list \<Rightarrow> bool" where
  "shape_differs st stackLocalsList =
     (if length (oldLocals st) \<noteq> length stackLocalsList then True
      else \<not> list_all (\<lambda>sl. case map_of (oldLocals st) (fst sl) of
                                None \<Rightarrow> False
                              | Some vo \<Rightarrow> vo_type vo = snd sl) stackLocalsList)"

text \<open>
  The decision of \<open>validate\<close> before the stack locals are fetched: focus or frame
  changed, or resumed with an unknown or different function.
\<close>

definition invalidate_early :: "var_store \<Rightarrow> thread_ref \<Rightarrow> int \<Rightarrow> string option \<Rightarrow> bool" where
  "invalidate_early st threadId fid funcName =
     (if threadIdChanged st threadId \<or> ctx_frameId (execContext st) \<noteq> Some fid then True
      else (funcName = None \<or> funcName = Some [] \<or> functionName (execContext st) = None
            \<or> functionName (execContext st) = Some []
            \<or> funcName \<noteq> functionName (execContext st)))"

definition validate :: "'b backend \<Rightarrow> thread_ref \<Rightarrow> int \<Rightarrow> string option \<Rightarrow> var_store \<Rightarrow> 'b world
    \<Rightarrow> (string + unit) \<times> var_store \<times> 'b world" where
  "validate be threadId fid funcName st w =
     (if \<not> gdb_defined st then (Inr (), st, w)
      else if \<not> (threadIdChanged st threadId \<or> ctx_frameId (execContext st) \<noteq> Some fid)
              \<and> resumed (execContext st) = Some False
      then updateLocals be st w
      else
        (let query = (case threadId of HostThread n \<Rightarrow> Some (n, fid) | DeviceFocus f \<Rightarrow> None) in
         case issue (StackListVariables query) (stackListVariables be query) w of
           (Inl e, w1) \<Rightarrow> (Inl e, st, w1)
         | (Inr stackLocalsList, w1) \<Rightarrow>
             if \<not> (invalidate_early st threadId fid funcName \<or> shape_differs st stackLocalsList)
             then updateLocals be st w1
             else
               (case clear be Local st w1 of
                  (Inl e, st2, w2) \<Rightarrow> (Inl e, st2, w2)
                | (Inr u, st2, w2) \<Rightarrow>
                    (case createLocals be stackLocalsList st2 w2 of
                       (Inl e, st3, w3) \<Rightarrow> (Inl e, st3, w3)
                     | (Inr u', st3, w3) \<Rightarrow>
                         (Inr (), st3\<lparr>execContext := \<lparr>ctx_threadId = Some threadId,
                                        ctx_frameId = Some fid, resumed = Some False,
                                        functionName = funcName\<rparr>\<rparr>, w3)))))"

definition getLocals :: "'b backend \<Rightarrow> thread_ref option \<Rightarrow> int \<Rightarrow> var_store \<Rightarrow> 'b world
    \<Rightarrow> (string + var_obj list) \<times> var_store \<times> 'b world" where
  "getLocals be focus_arg fid st w =
     (case focus_arg of
        None \<Rightarrow> (Inr [], st, w)
      | Some threadId \<Rightarrow>
          (case getCurrentFunction be st threadId w of
             (Inl e, w1) \<Rightarrow> (Inl e, st, w1)
           | (Inr funcName, w1) \<Rightarrow>
               (case validate be threadId fid funcName st w1 of
                  (Inl e, st2, w2) \<Rightarrow> (Inl e, st2, w2)
                | (Inr u, st2, w2) \<Rightarrow> (Inr (values_of_kind Local st2), st2, w2))))"

subsection \<open>Session state\<close>

text \<open>
  \<open>CudaThread\<close>, the pseudo-thread of the device, with its optional focus. The getter
  \<open>hasFocus\<close> returns \<open>false\<close>; the call of \<open>utils.isCudaFocusValid\<close> is
  commented out in the source.
\<close>

record cuda_thread =
  thread_focus :: "cuda_focus option"

definition setFocus :: "cuda_focus \<Rightarrow> cuda_thread \<Rightarrow> cuda_thread" where
  "setFocus f t = t\<lparr>thread_focus := Some f\<rparr>"

definition clearFocus :: "cuda_thread \<Rightarrow> cuda_thread" where
  "clearFocus t = t\<lparr>thread_focus := None\<rparr>"

definition hasFocus :: "cuda_thread \<Rightarrow> bool" where
  "hasFocus t = False"

record instruction =
  address :: string
  instructionBytes :: "string option"
  instruction_text :: string

text \<open>What the session sends to the client: responses and events.\<close>

datatype dap_message =
    ErrorResponse int string
  | ChangeCudaFocusResponse cuda_focus
  | DisassembleResponse "instruction list"
  | ChangedCudaFocusEvent "cuda_focus option"
  | InvalidatedEvent "string list"
  | StoppedEvent string
  | SystemInfoEvent

record session =
  cudaThread :: cuda_thread
  uiFocusedFrame :: "frame_ref option"
  gdbFocusedFrame :: "frame_ref option"
  telemetryInfoSent :: bool
  varStore :: var_store
  sent :: "dap_message list"

definition new_session :: session where
  "new_session = \<lparr>cudaThread = \<lparr>thread_focus = None\<rparr>, uiFocusedFrame = None,
     gdbFocusedFrame = None, telemetryInfoSent = False, varStore = new_store, sent = []\<rparr>"

definition send :: "dap_message \<Rightarrow> session \<Rightarrow> session" where
  "send m s = s\<lparr>sent := sent s @ [m]\<rparr>"

subsection \<open>Focus controller\<close>

text \<open>
  Modelled from the spec: \<open>utils.deepEqual\<close> is not among the sources at hand; the
  specification compares frames and foci by structural equality, which is \<open>=\<close> here.
  The command batch of \<open>focusOnFrame\<close>: the focus is selected when it differs from the
  one the backend is on, the frame when it is not \<open>null\<close> and the focus or the frame
  differs.
\<close>

definition focus_command :: "thread_ref \<Rightarrow> mi_command" where
  "focus_command fo = (case fo of DeviceFocus f \<Rightarrow> SetCudaFocus f | HostThread n \<Rightarrow> ThreadSelect n)"

definition focus_commands :: "frame_ref option \<Rightarrow> thread_ref \<Rightarrow> int option \<Rightarrow> mi_command list" where
  "focus_commands backendFrame fo fid =
     (if Some fo \<noteq> (case backendFrame of None \<Rightarrow> None | Some g \<Rightarrow> focus g)
      then focus_command fo # (case fid of None \<Rightarrow> [] | Some n \<Rightarrow> [FrameSelect n])
      else (case fid of
              None \<Rightarrow> []
            | Some n \<Rightarrow>
                if (case backendFrame of None \<Rightarrow> True | Some g \<Rightarrow> frameId g \<noteq> Some n)
                then [FrameSelect n] else []))"

definition resolve_focus :: "session \<Rightarrow> frame_ref \<Rightarrow> thread_ref option" where
  "resolve_focus s fr =
     (case focus fr of
        Some fo \<Rightarrow> Some fo
      | None \<Rightarrow> map_option DeviceFocus (thread_focus (cudaThread s)))"

text \<open>The batch is sent only when it is not empty.\<close>

definition attempt :: "'b backend \<Rightarrow> mi_command list \<Rightarrow> 'b world \<Rightarrow> (string + unit) \<times> 'b world" where
  "attempt be commands w = (if commands \<noteq> [] then sendCommands be commands w else (Inr (), w))"

text \<open>
  \<open>focusOnFrame\<close>. When the commands fail, the recorded backend frame is dropped,
  the method calls itself on the frame that was recorded, and the error is thrown again;
  an error of the inner call leaves the \<open>catch\<close> block at once.
\<close>

function focusOnFrame :: "'b backend \<Rightarrow> frame_ref option \<Rightarrow> session \<Rightarrow> 'b world
    \<Rightarrow> (string + unit) \<times> session \<times> 'b world" where
  "focusOnFrame be frame s w =
     (case frame of
        None \<Rightarrow> (Inr (), s, w)
      | Some fr \<Rightarrow>
          if Some fr = gdbFocusedFrame s then (Inr (), s, w)
          else
            (case resolve_focus s fr of
               None \<Rightarrow> (Inr (), s, w)
             | Some fo \<Rightarrow>
                 (let commands = focus_commands (gdbFocusedFrame s) fo (frameId fr) in
                  case attempt be commands w of
                    (Inr u, w1) \<Rightarrow>
                      (Inr (), s\<lparr>gdbFocusedFrame := Some \<lparr>frameId = frameId fr, focus = Some fo\<rparr>\<rparr>, w1)
                  | (Inl error, w1) \<Rightarrow>
                      (case focusOnFrame be (gdbFocusedFrame s) (s\<lparr>gdbFocusedFrame := None\<rparr>) w1 of
                         (Inl error2, s2, w2) \<Rightarrow> (Inl error2, s2, w2)
                       | (Inr u, s2, w2) \<Rightarrow> (Inl error, s2, w2)))))"
  by pat_completeness auto
termination
  by (relation "measure (\<lambda>(be, frame, s, w).
        case frame of None \<Rightarrow> 0
        | Some fr \<Rightarrow> (case gdbFocusedFrame s of None \<Rightarrow> 1 | Some g \<Rightarrow> (2::nat)))")
     (auto split: option.splits)

declare focusOnFrame.simps [simp del]

definition focusOnThread :: "'b backend \<Rightarrow> thread_ref option \<Rightarrow> session \<Rightarrow> 'b world
    \<Rightarrow> (string + unit) \<times> session \<times> 'b world" where
  "focusOnThread be fo s w = focusOnFrame be (Some \<lparr>frameId = Some 0, focus = fo\<rparr>) s w"

text \<open>
  \<open>resetCudaFocus\<close> sends the focus-select command for the focus of the pseudo-thread
  when \<open>hasFocus\<close> holds.
\<close>

definition resetCudaFocus :: "'b backend \<Rightarrow> session \<Rightarrow> 'b world \<Rightarrow> (string + unit) \<times> 'b world" where
  "resetCudaFocus be s w =
     (if \<not> hasFocus (cudaThread s) then (Inr (), w)
      else (case thread_focus (cudaThread s) of
              None \<Rightarrow> (Inl ''TypeError'', w)
            | Some f \<Rightarrow> sendCommand be (SetCudaFocus f) w))"

subsection \<open>Stop notifications\<close>

text \<open>
  The payload of an asynchronous notification, as far as this file reads it: the
  \<open>CudaFocus\<close> field with its \<open>blockIdx\<close> and \<open>threadIdx\<close> texts.
  \<open>utils.parseCudaDim\<close> is not among the sources at hand and is a parameter.
\<close>

record async_data =
  CudaFocus_field :: "(string \<times> string) option"

text \<open>
  \<open>handleGDBAsync\<close>. The call of the base class between the two parts does not touch
  the state kept here.
\<close>

definition handleGDBAsync :: "(string \<Rightarrow> cuda_dim option) \<Rightarrow> 'b backend \<Rightarrow> string \<Rightarrow> async_data
    \<Rightarrow> session \<Rightarrow> 'b world \<Rightarrow> (string + unit) \<times> session \<times> 'b world" where
  "handleGDBAsync parseCudaDim be resultClass resultData s w =
     (let stopped_part =
        (if resultClass = ''stopped'' then
           (case
              (case CudaFocus_field resultData of
                 Some (b, t) \<Rightarrow>
                   (let fo = Software (parseCudaDim b) (parseCudaDim t) in
                    if \<not> equalsCudaFocus (Some fo) (thread_focus (cudaThread s)) then
                      (let s1 = s\<lparr>cudaThread := setFocus fo (cudaThread s)\<rparr> in
                       case resetCudaFocus be s1 w of
                         (Inl e, w1) \<Rightarrow> (Inl e, s1, w1)
                       | (Inr u, w1) \<Rightarrow>
                           (Inr (), send (ChangedCudaFocusEvent (thread_focus (cudaThread s1))) s1, w1))
                    else (Inr (), s, w))
               | None \<Rightarrow>
                   if hasFocus (cudaThread s)
                   then (Inr (), send (ChangedCudaFocusEvent None)
                                  (s\<lparr>cudaThread := clearFocus (cudaThread s)\<rparr>), w)
                   else (Inr (), s, w))
            of
              (Inl e, s2, w2) \<Rightarrow> (Inl e, s2, w2)
            | (Inr u, s2, w2) \<Rightarrow>
                (Inr (), s2\<lparr>varStore := (varStore s2)\<lparr>execContext :=
                           (execContext (varStore s2))\<lparr>resumed := Some True\<rparr>\<rparr>\<rparr>, w2))
         else (Inr (), s, w))
      in case stopped_part of
           (Inl e, s3, w3) \<Rightarrow> (Inl e, s3, w3)
         | (Inr u, s3, w3) \<Rightarrow>
             if hasFocus (cudaThread s3) \<and> \<not> telemetryInfoSent s3 then
               (case sendCommand be CudaInfoDevices w3 of
                  (Inl e, w4) \<Rightarrow> (Inl e, s3\<lparr>telemetryInfoSent := True\<rparr>, w4)
                | (Inr u', w4) \<Rightarrow> (Inr (), send SystemInfoEvent (s3\<lparr>telemetryInfoSent := True\<rparr>), w4))
             else (Inr (), s3, w3))"

subsection \<open>Change of the device focus\<close>

definition coerceDim :: "cuda_dim option \<Rightarrow> cuda_dim option \<Rightarrow> cuda_dim" where
  "coerceDim dim1 dim2 =
     (let pick = (\<lambda>sel. case Option.bind dim1 sel of
                           Some v \<Rightarrow> v
                         | None \<Rightarrow> (case Option.bind dim2 sel of Some v \<Rightarrow> v | None \<Rightarrow> 0))
      in CudaDim (Some (pick dim_x)) (Some (pick dim_y)) (Some (pick dim_z)))"

definition or_else :: "int option \<Rightarrow> int option \<Rightarrow> int" where
  "or_else a b = (case a of Some v \<Rightarrow> v | None \<Rightarrow> (case b of Some v \<Rightarrow> v | None \<Rightarrow> 0))"

definition mixing_message :: string where
  "mixing_message = ''Mixing hardware and software coordinates to change focus is not supported.''"

text \<open>
  The merge of \<open>changeCudaFocusRequest\<close>: a new focus when the requested focus and the
  focus of the pseudo-thread are of the same variant, nothing otherwise.
\<close>

definition merge_focus :: "cuda_focus \<Rightarrow> cuda_focus option \<Rightarrow> cuda_focus option" where
  "merge_focus requested current =
     (case (requested, current) of
        (Software rb rt, Some (Software cb ct)) \<Rightarrow>
          Some (Software (Some (coerceDim rb cb)) (Some (coerceDim rt ct)))
      | (Hardware rs rw rl, Some (Hardware cs cw cl)) \<Rightarrow>
          Some (Hardware (Some (or_else rs cs)) (Some (or_else rw cw)) (Some (or_else rl cl)))
      | _ \<Rightarrow> None)"

definition changeCudaFocusRequest :: "'b backend \<Rightarrow> cuda_focus option \<Rightarrow> session \<Rightarrow> 'b world
    \<Rightarrow> (string + unit) \<times> session \<times> 'b world" where
  "changeCudaFocusRequest be args_focus s w =
     (case focusOnThread be (map_option DeviceFocus args_focus) s w of
        (Inl error, s1, w1) \<Rightarrow>
          focusOnFrame be (uiFocusedFrame s1) (send (ErrorResponse 1 error) s1) w1
      | (Inr u, s1, w1) \<Rightarrow>
          (case args_focus of
             None \<Rightarrow> focusOnFrame be (uiFocusedFrame s1) (send (ErrorResponse 1 ''TypeError'') s1) w1
           | Some requested \<Rightarrow>
               (case merge_focus requested (thread_focus (cudaThread s1)) of
                  None \<Rightarrow> (Inr (), send (ErrorResponse 1 mixing_message) s1, w1)
                | Some newFocus \<Rightarrow>
                    (let s2 = s1\<lparr>cudaThread := setFocus newFocus (cudaThread s1)\<rparr>;
                         s3 = (if uiFocusedFrame s2 \<noteq> None
                                  \<and> isCudaFocus (Option.bind (uiFocusedFrame s2) focus)
                               then s2\<lparr>uiFocusedFrame := Some \<lparr>frameId = Some 0,
                                          focus = Some (DeviceFocus newFocus)\<rparr>\<rparr>
                               else s2)
                     in (Inr (),
                         send (StoppedEvent ''Refreshing State'')
                           (send (InvalidatedEvent [''stacks'', ''variables''])
                             (send (ChangedCudaFocusEvent (Some newFocus))
                               (send (ChangeCudaFocusResponse newFocus) s3))),
                         w1)))))"

subsection \<open>Disassembly: the sentinel address\<close>






subsection \<open>Sequences of locals requests\<close>

text \<open>
  Between two locals requests the program may run and stop: a stop marks the execution
  context as resumed (\<open>handleGDBAsync\<close>) and leaves the backend in some new state.
\<close>

datatype 'b store_event = Stopped 'b | LocalsRequest thread_ref int

fun run_events :: "'b backend \<Rightarrow> 'b store_event list \<Rightarrow> var_store \<Rightarrow> 'b world \<Rightarrow> var_store \<times> 'b world" where
  "run_events be [] st w = (st, w)"
| "run_events be (Stopped b # es) st w =
     run_events be es (st\<lparr>execContext := (execContext st)\<lparr>resumed := Some True\<rparr>\<rparr>) (w\<lparr>bstate := b\<rparr>)"
| "run_events be (LocalsRequest t fid # es) st w =
     (case getLocals be (Some t) fid st w of (r, st', w') \<Rightarrow> run_events be es st' w')"

text \<open>A condition that holds at every locals request of a run, in the state the request meets.\<close>

fun all_requests :: "(thread_ref \<Rightarrow> int \<Rightarrow> var_store \<Rightarrow> 'b world \<Rightarrow> bool)
    \<Rightarrow> 'b backend \<Rightarrow> 'b store_event list \<Rightarrow> var_store \<Rightarrow> 'b world \<Rightarrow> bool" where
  "all_requests P be [] st w = True"
| "all_requests P be (Stopped b # es) st w =
     all_requests P be es (st\<lparr>execContext := (execContext st)\<lparr>resumed := Some True\<rparr>\<rparr>) (w\<lparr>bstate := b\<rparr>)"
| "all_requests P be (LocalsRequest t fid # es) st w =
     (P t fid st w \<and>
      (case getLocals be (Some t) fid st w of (r, st', w') \<Rightarrow> all_requests P be es st' w'))"

text \<open>The names and types of the stored local objects.\<close>

definition stored_shape :: "var_store \<Rightarrow> (string \<times> string) list" where
  "stored_shape st = map (\<lambda>vo. (expression vo, vo_type vo)) (values_of_kind Local st)"

definition stack_query :: "thread_ref \<Rightarrow> int \<Rightarrow> (int \<times> int) option" where
  "stack_query t fid = (case t of HostThread n \<Rightarrow> Some (n, fid) | DeviceFocus f \<Rightarrow> None)"

text \<open>
  Two lists of stack locals have the same names and types when every pair of a name and
  a type occurs as often in the one as in the other; the order does not matter.
\<close>

definition same_names_and_types :: "(string \<times> string) list \<Rightarrow> (string \<times> string) list \<Rightarrow> bool" where
  "same_names_and_types xs ys = list_all (\<lambda>p. count_list xs p = count_list ys p) (xs @ ys)"

text \<open>
  Nothing changed for a request: focus and frame are those of the execution context,
  the function the backend resolves is the stored one, and the stack locals the backend
  lists have the names and types of the stored local objects, in whatever order. A
  request whose backend queries fail has nothing to compare.
\<close>

definition request_unchanged :: "'b backend \<Rightarrow> thread_ref \<Rightarrow> int \<Rightarrow> var_store \<Rightarrow> 'b world \<Rightarrow> bool" where
  "request_unchanged be t fid st w =
     (ctx_threadId (execContext st) = Some t \<and> ctx_frameId (execContext st) = Some fid \<and>
      (case getCurrentFunction be st t w of
         (Inl e, w1) \<Rightarrow> True
       | (Inr funcName, w1) \<Rightarrow>
           funcName = functionName (execContext st) \<and>
           (case stackListVariables be (stack_query t fid) (bstate w1) of
              (Inl e, b) \<Rightarrow> True
            | (Inr stackLocalsList, b) \<Rightarrow> same_names_and_types stackLocalsList (stored_shape st))))"

text \<open>
  The resolved function has a name, and no two stored local objects stand for the same
  name.
\<close>

definition names_usable :: "'b backend \<Rightarrow> thread_ref \<Rightarrow> int \<Rightarrow> var_store \<Rightarrow> 'b world \<Rightarrow> bool" where
  "names_usable be t fid st w =
     (distinct (map fst (stored_shape st)) \<and>
      (case getCurrentFunction be st t w of
         (Inl e, w1) \<Rightarrow> True
       | (Inr funcName, w1) \<Rightarrow> funcName \<noteq> None \<and> funcName \<noteq> Some []))"

fun is_create_or_delete :: "mi_command \<Rightarrow> bool" where
  "is_create_or_delete (VarCreate e) = True"
| "is_create_or_delete (VarDelete n) = True"
| "is_create_or_delete c = False"

text \<open>
  The commands of a request that takes the cheap path: the query for the function of
  frame 0; then, when that has answered, the refresh alone if the context is marked not
  resumed, and otherwise the query for the stack locals followed, when that has
  answered, by the refresh. A query that fails ends the request.
\<close>

definition refresh_commands :: "'b backend \<Rightarrow> thread_ref \<Rightarrow> int \<Rightarrow> var_store \<Rightarrow> 'b world \<Rightarrow> mi_command list" where
  "refresh_commands be t fid st w =
     (if \<not> gdb_defined st then []
      else
        StackListFrames (case t of HostThread n \<Rightarrow> Some n | DeviceFocus f \<Rightarrow> None) #
        (case getCurrentFunction be st t w of
           (Inl e, w1) \<Rightarrow> []
         | (Inr funcName, w1) \<Rightarrow>
             if resumed (execContext st) = Some False then [VarUpdateAll]
             else
               StackListVariables (stack_query t fid) #
               (case fst (stackListVariables be (stack_query t fid) (bstate w1)) of
                  Inl e \<Rightarrow> []
                | Inr stackLocalsList \<Rightarrow> [VarUpdateAll])))"

text \<open>The commands of a run in which every request takes the cheap path.\<close>

fun refresh_trace :: "'b backend \<Rightarrow> 'b store_event list \<Rightarrow> var_store \<Rightarrow> 'b world \<Rightarrow> mi_command list" where
  "refresh_trace be [] st w = []"
| "refresh_trace be (Stopped b # es) st w =
     refresh_trace be es (st\<lparr>execContext := (execContext st)\<lparr>resumed := Some True\<rparr>\<rparr>) (w\<lparr>bstate := b\<rparr>)"
| "refresh_trace be (LocalsRequest t fid # es) st w =
     refresh_commands be t fid st w
     @ (case getLocals be (Some t) fid st w of (r, st', w') \<Rightarrow> refresh_trace be es st' w')"

subsection \<open>Execution queue\<close>

text \<open>
  \<open>ExecutionQueue\<close>. An item is the task \<open>fn\<close> with the \<open>resolve\<close> and \<open>reject\<close>
  of the promise that \<open>execute\<close> returned; the number identifies that promise. Calling
  \<open>fn\<close> either throws at once or returns something that \<open>await\<close> waits for, and
  the outcome arrives later as a separate step of the event loop.
\<close>

datatype fn_behaviour = ThrowsAtCall string | ReturnsAwaitable

record item =
  item_id :: nat
  item_fn :: fn_behaviour

datatype 'r settled = Resolved 'r | Rejected string

text \<open>
  What can be observed of the queue: a task was called, and the promise of a task was
  settled through \<open>resolve\<close> or \<open>reject\<close>.
\<close>

datatype 'r observation = Started nat | Delivered nat "'r settled"

text \<open>
  The state: the array \<open>queue\<close>, the index at which the loop of \<open>processQueue\<close> is
  suspended in its \<open>await\<close> (none when no loop is running), and the observations.
\<close>

record 'r execution_queue =
  queue :: "item list"
  awaiting :: "nat option"
  observed :: "'r observation list"

definition empty_queue :: "'r execution_queue" where
  "empty_queue = \<lparr>queue = [], awaiting = None, observed = []\<rparr>"

text \<open>
  The loop of \<open>processQueue\<close> from index \<open>i\<close> of the array on: a task that throws
  when called is rejected and the loop goes on; at a task that returns, the loop
  suspends. The iterator reads the array afresh at each step, so items pushed while the
  loop is suspended are reached.
\<close>

function processQueue_from :: "item list \<Rightarrow> nat \<Rightarrow> 'r observation list \<Rightarrow> nat option \<times> 'r observation list" where
  "processQueue_from q i obs =
     (if i < length q then
        (case item_fn (q ! i) of
           ThrowsAtCall error \<Rightarrow>
             processQueue_from q (Suc i)
               (obs @ [Started (item_id (q ! i)), Delivered (item_id (q ! i)) (Rejected error)])
         | ReturnsAwaitable \<Rightarrow> (Some i, obs @ [Started (item_id (q ! i))]))
      else (None, obs))"
  by pat_completeness auto
termination
  by (relation "measure (\<lambda>(q, i, obs). length q - i)") auto

declare processQueue_from.simps [simp del]

text \<open>When the loop has run off the end of the array, \<open>processQueue\<close> empties the queue.\<close>

definition resume_loop :: "nat \<Rightarrow> 'r observation list \<Rightarrow> 'r execution_queue \<Rightarrow> 'r execution_queue" where
  "resume_loop i obs s =
     (case processQueue_from (queue s) i obs of
        (Some k, obs') \<Rightarrow> s\<lparr>awaiting := Some k, observed := obs'\<rparr>
      | (None, obs') \<Rightarrow> s\<lparr>queue := [], awaiting := None, observed := obs'\<rparr>)"

text \<open>\<open>execute\<close>: push the item, and start the loop when the item is the only one.\<close>

definition execute :: "item \<Rightarrow> 'r execution_queue \<Rightarrow> 'r execution_queue" where
  "execute it s =
     (let s1 = s\<lparr>queue := queue s @ [it]\<rparr> in
      if length (queue s1) = 1 then resume_loop 0 (observed s1) s1 else s1)"

text \<open>
  The awaited task settles: the loop hands the outcome to \<open>resolve\<close> or \<open>reject\<close>
  of the same item and moves on. Without a suspended loop there is nothing that could
  settle.
\<close>

definition settle :: "'r settled \<Rightarrow> 'r execution_queue \<Rightarrow> 'r execution_queue" where
  "settle outcome s =
     (case awaiting s of
        None \<Rightarrow> s
      | Some i \<Rightarrow> resume_loop (Suc i) (observed s @ [Delivered (item_id (queue s ! i)) outcome]) s)"

datatype 'r queue_event = Submit item | Settle "'r settled"

fun queue_step :: "'r execution_queue \<Rightarrow> 'r queue_event \<Rightarrow> 'r execution_queue" where
  "queue_step s (Submit it) = execute it s"
| "queue_step s (Settle outcome) = settle outcome s"

definition run_queue :: "'r queue_event list \<Rightarrow> 'r execution_queue" where
  "run_queue evs = foldl queue_step empty_queue evs"

text \<open>The tasks in the order of their arrival.\<close>

fun submitted :: "'r queue_event list \<Rightarrow> nat list" where
  "submitted [] = []"
| "submitted (Submit it # evs) = item_id it # submitted evs"
| "submitted (Settle outcome # evs) = submitted evs"

text \<open>
  What is observed when the tasks waiting in the array are called in their turn: a task
  that throws when called is rejected and the next one is called, up to the first task
  that returns, which is then running.
\<close>

fun called_in_turn :: "item list \<Rightarrow> 'r observation list" where
  "called_in_turn [] = []"
| "called_in_turn (it # rest) =
     (case item_fn it of
        ThrowsAtCall error \<Rightarrow>
          Started (item_id it) # Delivered (item_id it) (Rejected error) # called_in_turn rest
      | ReturnsAwaitable \<Rightarrow> [Started (item_id it)])"

text \<open>The observations of tasks that ran one after the other, each called and then settled.\<close>

definition in_turn :: "(nat \<times> 'r settled) list \<Rightarrow> 'r observation list" where
  "in_turn outs = concat (map (\<lambda>(t, r). [Started t, Delivered t r]) outs)"

text \<open>
  The shape of every reachable state: the tasks that were called and settled, in the
  order of arrival; then the task the loop is waiting for, if there is one; and in the
  array, behind it, the tasks that have not been called yet.
\<close>

definition orderly :: "'r queue_event list \<Rightarrow> 'r execution_queue \<Rightarrow> bool" where
  "orderly evs s =
     (\<exists>outs. observed s = in_turn outs @ (case awaiting s of
                                            None \<Rightarrow> []
                                          | Some i \<Rightarrow> [Started (item_id (queue s ! i))])
           \<and> (case awaiting s of
                 None \<Rightarrow> queue s = [] \<and> map fst outs = submitted evs
               | Some i \<Rightarrow> i < length (queue s)
                            \<and> map fst outs @ map item_id (drop i (queue s)) = submitted evs))"


subsection \<open>A scripted backend for concrete runs\<close>

text \<open>
  A backend whose state counts the variable objects it has created, so that every
  object gets a fresh name. It reports one frame with the given function and the given
  stack locals, and it has no registers to read.
\<close>

definition demo_backend :: "string option \<Rightarrow> (string \<times> string) list \<Rightarrow> nat backend" where
  "demo_backend func locals =
     \<lparr> stackListFrames = (\<lambda>t b. (Inr [func], b)),
       stackListVariables = (\<lambda>q b. (Inr locals, b)),
       varCreate = (\<lambda>e b. (Inr \<lparr>vc_name = replicate (Suc b) CHR ''v'', vc_numchild = ''0'',
                                 vc_value = ''0'', vc_type = ''int''\<rparr>, Suc b)),
       varUpdate = (\<lambda>b. (Inr [], b)),
       registerValues = (\<lambda>rs b. (Inl ''no registers'', b)),
       plainCommand = (\<lambda>c b. (Inr (), b)) \<rparr>"

definition fresh_world :: "nat world" where
  "fresh_world = \<lparr>bstate = 0, issued = []\<rparr>"

text \<open>The store after the first locals request for host thread 1, frame 0.\<close>

definition materialized_store :: var_store where
  "materialized_store =
     fst (snd (getLocals (demo_backend (Some ''main'') [(''x'', ''int'')]) (Some (HostThread 1)) 0
                 new_store fresh_world))"

text \<open>A backend that refuses to select host thread 7 and accepts every other command.\<close>

definition picky_backend :: "nat backend" where
  "picky_backend =
     (demo_backend (Some ''main'') [])
       \<lparr> plainCommand := (\<lambda>c b. if c = ThreadSelect 7 then (Inl ''Invalid thread id: 7'', b)
                                 else (Inr (), b)) \<rparr>"

definition origin :: cuda_dim where
  "origin = CudaDim (Some 0) (Some 0) (Some 0)"

text \<open>A parser of dimension texts that reads every text as the origin.\<close>

definition parse_origin :: "string \<Rightarrow> cuda_dim option" where
  "parse_origin text = Some origin"

text \<open>The session after a first stop in device code, at block (0,0,0), thread (0,0,0).\<close>

definition stopped_on_device :: session where
  "stopped_on_device =
     fst (snd (handleGDBAsync parse_origin (demo_backend (Some ''kernel'') []) ''stopped''
                 \<lparr>CudaFocus_field = Some (''(0,0,0)'', ''(0,0,0)'')\<rparr> new_session fresh_world))"


text \<open>
  The first locals request of a session, for host thread 1 and frame 0, and the run
  that follows it: the program stops again and the locals are requested once more.
\<close>

definition first_request :: "nat backend \<Rightarrow> var_store \<times> nat world" where
  "first_request be = snd (getLocals be (Some (HostThread 1)) 0 new_store fresh_world)"

definition stop_and_request :: "nat backend \<Rightarrow> nat store_event list" where
  "stop_and_request be = [Stopped (bstate (snd (first_request be))), LocalsRequest (HostThread 1) 0]"

text \<open>
  Three programs at a stop: one whose frame has no function name, one with the same
  name declared in two nested scopes, and one with two locals of different names,
  which the backend lists in the opposite order once their objects exist.
\<close>

definition unnamed_backend :: "nat backend" where
  "unnamed_backend = demo_backend None [(''x'', ''int'')]"

definition shadowing_backend :: "nat backend" where
  "shadowing_backend = demo_backend (Some ''main'') [(''x'', ''int''), (''x'', ''int'')]"

definition reordering_backend :: "nat backend" where
  "reordering_backend =
     (demo_backend (Some ''main'') [])
       \<lparr> stackListVariables :=
           (\<lambda>q b. (Inr (if b = 0 then [(''x'', ''int''), (''y'', ''int'')]
                         else [(''y'', ''int''), (''x'', ''int'')]), b)) \<rparr>"

section \<open>Properties\<close>

subsection \<open>Commands are only ever appended\<close>

lemma issued_issue: "issued (snd (issue c run w)) = issued w @ [c]"
  by (simp add: issue_def split: prod.splits)

lemma issued_sendCommands: "\<exists>n. issued (snd (sendCommands be cs w)) = issued w @ take n cs"
proof (induction cs arbitrary: w)
  case Nil
  then show ?case by simp
next
  case (Cons c cs)
  obtain r w' where s: "sendCommand be c w = (r, w')" by (cases "sendCommand be c w")
  then have iw: "issued w' = issued w @ [c]"
    using issued_issue [of c "plainCommand be c" w] by (simp add: sendCommand_def)
  show ?case
  proof (cases r)
    case (Inl e)
    with s iw have "issued (snd (sendCommands be (c # cs) w)) = issued w @ take 1 (c # cs)" by simp
    then show ?thesis by blast
  next
    case (Inr u)
    from Cons.IH [of w'] obtain n where "issued (snd (sendCommands be cs w')) = issued w' @ take n cs" by blast
    with s iw Inr have "issued (snd (sendCommands be (c # cs) w)) = issued w @ take (Suc n) (c # cs)" by simp
    then show ?thesis by blast
  qed
qed

lemma issued_update: "\<exists>ys. issued (snd (snd (update be st w))) = issued w @ ys"
  using issued_issue [of VarUpdateAll "varUpdate be" w]
  by (auto simp: update_def split: prod.splits sum.splits)

lemma issued_updateLocals: "\<exists>ys. issued (snd (snd (updateLocals be st w))) = issued w @ ys"
  using issued_update [of be st w]
  by (auto simp: updateLocals_def split: prod.splits sum.splits)

lemma issued_clear: "\<exists>ys. issued (snd (snd (clear be k st w))) = issued w @ ys"
  using issued_sendCommands [of be "map (\<lambda>vo. VarDelete (varname vo)) (values_of_kind k st)" w]
  by (auto simp: clear_def Let_def split: prod.splits sum.splits)

lemma issued_createLocals_loop: "\<exists>ys. issued (snd (snd (createLocals_loop be ls st w))) = issued w @ ys"
proof (induction ls arbitrary: st w)
  case Nil
  then show ?case by simp
next
  case (Cons l ls)
  obtain r w' where s: "issue (VarCreate (fst l)) (varCreate be (fst l)) w = (r, w')"
    by (cases "issue (VarCreate (fst l)) (varCreate be (fst l)) w")
  then have iw: "issued w' = issued w @ [VarCreate (fst l)]"
    using issued_issue [of "VarCreate (fst l)" "varCreate be (fst l)" w] by simp
  show ?case
  proof (cases r)
    case (Inl e)
    with s iw show ?thesis by simp
  next
    case (Inr resp)
    with s iw Cons.IH show ?thesis by (simp add: Let_def) (metis append.assoc)
  qed
qed

lemma issued_createLocals: "\<exists>ys. issued (snd (snd (createLocals be ls st w))) = issued w @ ys"
  using issued_createLocals_loop [of be ls st w] by (simp add: createLocals_def)

subsection \<open>The validation pass and the stack-locals fetch\<close>

lemma validate_cheap:
  assumes "gdb_defined st" "\<not> threadIdChanged st t" "ctx_frameId (execContext st) = Some fid"
    "resumed (execContext st) = Some False"
  shows "issued (snd (snd (validate be t fid fn st w))) = issued w @ [VarUpdateAll]"
  using assms issued_issue [of VarUpdateAll "varUpdate be" w]
  by (auto simp: validate_def updateLocals_def update_def split: prod.splits sum.splits)

lemma validate_fetches:
  assumes "gdb_defined st"
    "threadIdChanged st t \<or> ctx_frameId (execContext st) \<noteq> Some fid \<or> resumed (execContext st) \<noteq> Some False"
  shows "\<exists>rest. issued (snd (snd (validate be t fid fn st w)))
      = issued w @ StackListVariables (case t of HostThread n \<Rightarrow> Some (n, fid) | DeviceFocus f \<Rightarrow> None) # rest"
proof -
  define q where "q = (case t of HostThread n \<Rightarrow> Some (n, fid) | DeviceFocus f \<Rightarrow> None)"
  obtain r w1 where s: "issue (StackListVariables q) (stackListVariables be q) w = (r, w1)"
    by (cases "issue (StackListVariables q) (stackListVariables be q) w")
  then have iw: "issued w1 = issued w @ [StackListVariables q]"
    using issued_issue [of "StackListVariables q" "stackListVariables be q" w] by simp
  show ?thesis
  proof (cases r)
    case (Inl e)
    with assms s iw show ?thesis by (auto simp: validate_def q_def [symmetric])
  next
    case (Inr ls)
    show ?thesis
    proof (cases "invalidate_early st t fid fn \<or> shape_differs st ls")
      case False
      with assms s iw Inr issued_updateLocals [of be st w1] show ?thesis
        by (auto simp: validate_def q_def [symmetric])
    next
      case True
      obtain r2 st2 w2 where c: "clear be Local st w1 = (r2, st2, w2)" by (cases "clear be Local st w1")
      with issued_clear [of be Local st w1] obtain ys where y: "issued w2 = issued w1 @ ys" by auto
      obtain r3 st3 w3 where d: "createLocals be ls st2 w2 = (r3, st3, w3)" by (cases "createLocals be ls st2 w2")
      with issued_createLocals [of be ls st2 w2] obtain zs where z: "issued w3 = issued w2 @ zs" by auto
      from assms s iw Inr True c d y z show ?thesis
        by (auto simp: validate_def q_def [symmetric] split: sum.splits)
    qed
  qed
qed

text \<open>
  C2, as stated: every validation pass fetches the stack-locals list, also on the
  not-resumed path. On the store left by a first locals request, a second pass for the
  same thread and frame issues the refresh command and nothing else.
\<close>

theorem validate_not_resumed_counterexample:
  "issued (snd (snd (validate (demo_backend (Some ''main'') [(''x'', ''int'')]) (HostThread 1) 0
       (Some ''main'') materialized_store fresh_world))) = [VarUpdateAll]"
  by code_simp

text \<open>
  C2, amended: with a backend at hand, a validation pass whose focus and frame are those
  of the execution context and whose context is marked not resumed issues the refresh
  command only and fetches nothing; every other pass fetches the stack-locals list as
  its first command, before any delete, create or refresh.
\<close>

theorem validate_fetch_policy:
  assumes "gdb_defined st"
  shows "if \<not> threadIdChanged st t \<and> ctx_frameId (execContext st) = Some fid
            \<and> resumed (execContext st) = Some False
         then issued (snd (snd (validate be t fid fn st w))) = issued w @ [VarUpdateAll]
         else (\<exists>rest. issued (snd (snd (validate be t fid fn st w)))
                 = issued w @ StackListVariables
                     (case t of HostThread n \<Rightarrow> Some (n, fid) | DeviceFocus f \<Rightarrow> None) # rest)"
  using assms validate_cheap [of st t fid be fn w] validate_fetches [of st t fid be fn w]
  by (simp split: if_splits)

theorem validate_fetch_policy_witness:
  "gdb_defined new_store
   \<and> (\<exists>rest. issued (snd (snd (validate (demo_backend (Some ''main'') [(''x'', ''int'')])
                 (HostThread 1) 0 (Some ''main'') new_store fresh_world)))
          = issued fresh_world @ StackListVariables (Some (1, 0)) # rest)"
  using validate_fetch_policy [of new_store "HostThread 1" 0
      "demo_backend (Some ''main'') [(''x'', ''int'')]" "Some ''main''" fresh_world]
  by (simp add: new_store_def empty_context_def)

subsection \<open>Locals request without a focus\<close>

text \<open>
  C10: \<open>getLocals\<close> with an undefined focus returns the empty list at once; the store
  (its execution context and its variable objects) and the backend are as before and no
  command has been issued.
\<close>

theorem getLocals_undefined_focus: "getLocals be None fid st w = (Inr [], st, w)"
  by (simp add: getLocals_def)

subsection \<open>Register values\<close>

text \<open>A numeric raw value is rendered once: in hexadecimal, or in decimal for a predicate group.\<close>

lemma numeric_register_rendering:
  "render_register \<lparr>groupName = ''R'', groupPattern = ''^R[0-9]+$'', isPredicate = False,
                    isHidden = False, registers = []\<rparr>
     [(Num 0, ''0x1f'')] \<lparr>ordinal = 0, reg_name = ''R0''\<rparr> = [Variable ''R0'' ''0x0000001f'']"
  "render_register \<lparr>groupName = ''P'', groupPattern = ''^P[0-9]+$'', isPredicate = True,
                    isHidden = False, registers = []\<rparr>
     [(Num 0, ''0x1f'')] \<lparr>ordinal = 0, reg_name = ''P0''\<rparr> = [Variable ''P0'' ''31'']"
  by code_simp+

text \<open>
  C9: a register whose raw value is not a number should contribute one variable, the
  raw string. When the backend cannot read register 0 of a group that is not
  predicate-flagged, the request stores \<open>N/A\<close> for it and then renders the register
  twice, the second time as \<open>NaN\<close>.
\<close>

theorem registersRequest_non_numeric_twice:
  "fst (registersRequest (demo_backend None [])
         \<lparr>groupName = ''R'', groupPattern = ''^R[0-9]+$'', isPredicate = False, isHidden = False,
          registers = [\<lparr>ordinal = 0, reg_name = ''R0''\<rparr>]\<rparr> fresh_world)
   = [Variable ''R0'' ''N/A'', Variable ''R0'' ''NaN'']"
  by code_simp


subsection \<open>Focus switches and their recovery\<close>

lemma focusOnFrame_None: "focusOnFrame be None s w = (Inr (), s, w)"
  by (simp add: focusOnFrame.simps [of be None s w])


lemma focusOnFrame_no_focus:
  "resolve_focus s fr = None \<Longrightarrow> focusOnFrame be (Some fr) s w = (Inr (), s, w)"
  by (simp add: focusOnFrame.simps [of be "Some fr" s w])

lemma focusOnFrame_ok:
  assumes "Some fr \<noteq> gdbFocusedFrame s" "resolve_focus s fr = Some fo"
    and "attempt be (focus_commands (gdbFocusedFrame s) fo (frameId fr)) w = (Inr u, w1)"
  shows "focusOnFrame be (Some fr) s w
     = (Inr (), s\<lparr>gdbFocusedFrame := Some \<lparr>frameId = frameId fr, focus = Some fo\<rparr>\<rparr>, w1)"
  using assms by (simp add: focusOnFrame.simps [of be "Some fr" s w] Let_def)

lemma focusOnFrame_failed:
  assumes "Some fr \<noteq> gdbFocusedFrame s" "resolve_focus s fr = Some fo"
    and "attempt be (focus_commands (gdbFocusedFrame s) fo (frameId fr)) w = (Inl err, w1)"
  shows "focusOnFrame be (Some fr) s w
     = (case focusOnFrame be (gdbFocusedFrame s) (s\<lparr>gdbFocusedFrame := None\<rparr>) w1 of
          (Inl error2, s2, w2) \<Rightarrow> (Inl error2, s2, w2)
        | (Inr u, s2, w2) \<Rightarrow> (Inl err, s2, w2))"
  using assms by (simp add: focusOnFrame.simps [of be "Some fr" s w] Let_def)

lemma resolve_focus_backend_frame [simp]:
  "resolve_focus (s\<lparr>gdbFocusedFrame := g\<rparr>) fr = resolve_focus s fr"
  by (simp add: resolve_focus_def split: option.splits)

lemma focus_commands_nonempty: "focus_commands None fo fid \<noteq> []"
  by (simp add: focus_commands_def)

text \<open>With no backend frame recorded, a failure ends the call: nothing is left to restore.\<close>

lemma focusOnFrame_unrecorded:
  assumes "gdbFocusedFrame s = None"
  shows "focusOnFrame be (Some fr) s w =
     (case resolve_focus s fr of
        None \<Rightarrow> (Inr (), s, w)
      | Some fo \<Rightarrow>
          (case sendCommands be (focus_commands None fo (frameId fr)) w of
             (Inr u, w1) \<Rightarrow> (Inr (), s\<lparr>gdbFocusedFrame := Some \<lparr>frameId = frameId fr, focus = Some fo\<rparr>\<rparr>, w1)
           | (Inl err, w1) \<Rightarrow> (Inl err, s, w1)))"
proof (cases "resolve_focus s fr")
  case None
  then show ?thesis by (simp add: focusOnFrame_no_focus)
next
  case (Some fo)
  have ne: "Some fr \<noteq> gdbFocusedFrame s" using assms by simp
  obtain r w1 where sc: "sendCommands be (focus_commands None fo (frameId fr)) w = (r, w1)"
    by (cases "sendCommands be (focus_commands None fo (frameId fr)) w")
  then have at: "attempt be (focus_commands (gdbFocusedFrame s) fo (frameId fr)) w = (r, w1)"
    using assms by (simp add: attempt_def focus_commands_nonempty)
  have same: "s\<lparr>gdbFocusedFrame := None\<rparr> = s" using assms by simp
  show ?thesis
  proof (cases r)
    case (Inl err)
    with at focusOnFrame_failed [OF ne Some, of be w err w1] assms Some sc same
    show ?thesis by (simp add: focusOnFrame_None)
  next
    case (Inr u)
    with at focusOnFrame_ok [OF ne Some, of be w u w1] Some sc show ?thesis by simp
  qed
qed

text \<open>
  C3: when the focus and frame commands of \<open>focusOnFrame\<close> fail, the recorded backend
  frame is dropped and the frame recorded before is applied once more, against no
  recorded frame. When that pass succeeds the first error is thrown and the earlier
  frame is recorded again; when it fails its own error is thrown, the recorded frame
  stays undefined, and no further command is sent.
\<close>

theorem focusOnFrame_failure_recovery:
  assumes "Some fr \<noteq> gdbFocusedFrame s"
    and "resolve_focus s fr = Some fo"
    and "focus_commands (gdbFocusedFrame s) fo (frameId fr) \<noteq> []"
    and "sendCommands be (focus_commands (gdbFocusedFrame s) fo (frameId fr)) w = (Inl err, w1)"
  shows "focusOnFrame be (Some fr) s w =
     (case gdbFocusedFrame s of
        None \<Rightarrow> (Inl err, s\<lparr>gdbFocusedFrame := None\<rparr>, w1)
      | Some prev \<Rightarrow>
          (case resolve_focus s prev of
             None \<Rightarrow> (Inl err, s\<lparr>gdbFocusedFrame := None\<rparr>, w1)
           | Some pfo \<Rightarrow>
               (case sendCommands be (focus_commands None pfo (frameId prev)) w1 of
                  (Inr u, w2) \<Rightarrow>
                    (Inl err, s\<lparr>gdbFocusedFrame := Some \<lparr>frameId = frameId prev, focus = Some pfo\<rparr>\<rparr>, w2)
                | (Inl err2, w2) \<Rightarrow> (Inl err2, s\<lparr>gdbFocusedFrame := None\<rparr>, w2))))"
proof -
  have at: "attempt be (focus_commands (gdbFocusedFrame s) fo (frameId fr)) w = (Inl err, w1)"
    using assms(3,4) by (simp add: attempt_def)
  note outer = focusOnFrame_failed [OF assms(1,2) at]
  show ?thesis
  proof (cases "gdbFocusedFrame s")
    case None
    with outer show ?thesis by (simp add: focusOnFrame_None)
  next
    case (Some prev)
    have "gdbFocusedFrame (s\<lparr>gdbFocusedFrame := None\<rparr>) = None" by simp
    note inner = focusOnFrame_unrecorded [OF this, of be prev w1]
    from outer Some inner show ?thesis
      by (auto split: option.splits sum.splits prod.splits)
  qed
qed



theorem focusOnFrame_failure_recovery_witness:
  "focusOnFrame picky_backend (Some \<lparr>frameId = Some 0, focus = Some (HostThread 7)\<rparr>)
     (new_session\<lparr>gdbFocusedFrame := Some \<lparr>frameId = Some 0, focus = Some (HostThread 1)\<rparr>\<rparr>)
     fresh_world
   = (Inl ''Invalid thread id: 7'',
      new_session\<lparr>gdbFocusedFrame := Some \<lparr>frameId = Some 0, focus = Some (HostThread 1)\<rparr>\<rparr>,
      fresh_world\<lparr>issued := [ThreadSelect 7, ThreadSelect 1, FrameSelect 0]\<rparr>)"
  using focusOnFrame_failure_recovery
    [of "\<lparr>frameId = Some 0, focus = Some (HostThread 7)\<rparr>"
        "new_session\<lparr>gdbFocusedFrame := Some \<lparr>frameId = Some 0, focus = Some (HostThread 1)\<rparr>\<rparr>"
        "HostThread 7" picky_backend fresh_world "''Invalid thread id: 7''"
        "fresh_world\<lparr>issued := [ThreadSelect 7]\<rparr>"]
  by (simp add: new_session_def fresh_world_def picky_backend_def demo_backend_def
        resolve_focus_def focus_commands_def focus_command_def sendCommand_def issue_def)

subsection \<open>The pseudo-thread never reports a focus\<close>

lemma resetCudaFocus_noop: "resetCudaFocus be s w = (Inr (), w)"
  by (simp add: resetCudaFocus_def hasFocus_def)

text \<open>
  Whatever the notification, \<open>hasFocus\<close> is false afterwards and no backend command
  has been sent: a stop with device-location fields stores the focus parsed from them,
  a stop without them leaves the stored focus as it is.
\<close>

lemma handleGDBAsync_hasFocus_false:
  "(case handleGDBAsync parseCudaDim be resultClass resultData s w of
      (r, s', w') \<Rightarrow>
        r = Inr () \<and> w' = w \<and> \<not> hasFocus (cudaThread s')
        \<and> (resultClass = ''stopped'' \<longrightarrow>
             (case CudaFocus_field resultData of
                Some (b, t) \<Rightarrow>
                  thread_focus (cudaThread s') = Some (Software (parseCudaDim b) (parseCudaDim t))
              | None \<Rightarrow> thread_focus (cudaThread s') = thread_focus (cudaThread s))))"
  by (auto simp: handleGDBAsync_def resetCudaFocus_noop hasFocus_def setFocus_def send_def
        equalsCudaFocus_def Let_def split: option.splits prod.splits)

text \<open>
  C8: after a stop that carries device-location fields has set the focus, \<open>hasFocus\<close>
  should reflect that focus. After the first stop in device code, at block (0,0,0) and
  thread (0,0,0), the focus is stored and \<open>hasFocus\<close> is false.
\<close>

theorem hasFocus_false_after_device_stop:
  "thread_focus (cudaThread stopped_on_device) = Some (Software (Some origin) (Some origin))
   \<and> \<not> hasFocus (cudaThread stopped_on_device)"
  by code_simp

subsection \<open>Change of the device focus\<close>

text \<open>
  C5: a request that mixes the variants should leave the backend-side focus as it was.
  After a stop at a software focus, a request for a hardware focus is answered with
  the error, and the stored focus of the pseudo-thread is kept; but the focus-select
  and frame commands for the hardware focus have been sent, and the backend frame is
  recorded as that hardware focus.
\<close>

theorem changeCudaFocus_mixing_moves_backend:
  "changeCudaFocusRequest (demo_backend (Some ''kernel'') [])
     (Some (Hardware (Some 0) (Some 1) (Some 2))) stopped_on_device fresh_world
   = (Inr (),
      send (ErrorResponse 1 mixing_message)
        (stopped_on_device\<lparr>gdbFocusedFrame :=
           Some \<lparr>frameId = Some 0, focus = Some (DeviceFocus (Hardware (Some 0) (Some 1) (Some 2)))\<rparr>\<rparr>),
      fresh_world\<lparr>issued := [SetCudaFocus (Hardware (Some 0) (Some 1) (Some 2)), FrameSelect 0]\<rparr>)"
  by code_simp



subsection \<open>Disassembly at the sentinel address\<close>





subsection \<open>Requests that find nothing changed\<close>

lemma map_set_fresh: "k \<notin> fst ` set m \<Longrightarrow> map_set k v m = m @ [(k, v)]"
  by (induction m) auto

lemma map_set_keys: "k \<in> fst ` set m \<Longrightarrow> map fst (map_set k v m) = map fst m"
  by (induction m) auto

lemma fold_map_set_distinct:
  "distinct (map f xs) \<Longrightarrow> f ` set xs \<inter> fst ` set acc = {}
   \<Longrightarrow> fold (\<lambda>v m. map_set (f v) v m) xs acc = acc @ map (\<lambda>v. (f v, v)) xs"
proof (induction xs arbitrary: acc)
  case Nil
  then show ?case by simp
next
  case (Cons x xs)
  have fresh: "f x \<notin> fst ` set acc" using Cons.prems(2) by auto
  have "f ` set xs \<inter> fst ` set (acc @ [(f x, x)]) = {}"
    using Cons.prems by auto
  with Cons.IH [of "acc @ [(f x, x)]"] Cons.prems(1) fresh show ?case
    by (simp add: map_set_fresh)
qed

lemma oldLocals_distinct:
  assumes "distinct (map fst (stored_shape st))"
  shows "oldLocals st = map (\<lambda>vo. (expression vo, vo)) (values_of_kind Local st)"
proof -
  have "distinct (map expression (values_of_kind Local st))"
    using assms by (simp add: stored_shape_def comp_def)
  from fold_map_set_distinct [OF this, of "[]"] show ?thesis by (simp add: oldLocals_def)
qed

lemma same_names_set:
  assumes "same_names_and_types xs ys"
  shows "set xs = set ys"
proof -
  have c: "count_list xs p = count_list ys p" if "p \<in> set xs \<union> set ys" for p
    using assms that by (simp add: same_names_and_types_def list_all_iff)
  have "p \<in> set ys" if "p \<in> set xs" for p
  proof -
    from that have "count_list xs p \<noteq> 0" by (simp add: count_list_0_iff)
    with c [of p] that have "count_list ys p \<noteq> 0" by simp
    then show ?thesis by (simp add: count_list_0_iff)
  qed
  moreover have "p \<in> set xs" if "p \<in> set ys" for p
  proof -
    from that have "count_list ys p \<noteq> 0" by (simp add: count_list_0_iff)
    with c [of p] that have "count_list xs p \<noteq> 0" by simp
    then show ?thesis by (simp add: count_list_0_iff)
  qed
  ultimately show ?thesis by blast
qed

lemma same_names_length:
  assumes "same_names_and_types xs ys"
  shows "length xs = length ys"
proof -
  let ?X = "set xs \<union> set ys"
  have c: "count_list xs p = count_list ys p" if "p \<in> ?X" for p
    using assms that by (simp add: same_names_and_types_def list_all_iff)
  have "length xs = sum (count_list xs) ?X" by (rule sum_count_set [symmetric]) auto
  also have "\<dots> = sum (count_list ys) ?X" using c by (intro sum.cong) auto
  also have "\<dots> = length ys" by (rule sum_count_set) auto
  finally show ?thesis .
qed

lemma same_shape_kept:
  assumes "distinct (map fst (stored_shape st))"
    and "same_names_and_types ls (stored_shape st)"
  shows "\<not> shape_differs st ls"
proof -
  let ?locals = "values_of_kind Local st"
  have d: "distinct (map expression ?locals)"
    using assms(1) by (simp add: stored_shape_def comp_def)
  have look: "map_of (map (\<lambda>vo. (expression vo, vo)) ?locals) (expression vo) = Some vo"
    if "vo \<in> set ?locals" for vo
  proof -
    have "distinct (map fst (map (\<lambda>vo. (expression vo, vo)) ?locals))" using d by (simp add: comp_def)
    moreover have "(expression vo, vo) \<in> set (map (\<lambda>vo. (expression vo, vo)) ?locals)" using that by auto
    ultimately show ?thesis by (rule map_of_is_SomeI)
  qed
  have len: "length (oldLocals st) = length ls"
    using same_names_length [OF assms(2)]
    by (simp add: oldLocals_distinct [OF assms(1)] stored_shape_def)
  have each: "case map_of (oldLocals st) (fst sl) of None \<Rightarrow> False | Some vo \<Rightarrow> vo_type vo = snd sl"
    if "sl \<in> set ls" for sl
  proof -
    from that same_names_set [OF assms(2)] have "sl \<in> set (stored_shape st)" by simp
    then obtain vo where vo: "vo \<in> set ?locals" "sl = (expression vo, vo_type vo)"
      by (auto simp: stored_shape_def)
    with look [OF vo(1)] show ?thesis by (simp add: oldLocals_distinct [OF assms(1)])
  qed
  show ?thesis using len each by (simp add: shape_differs_def list_all_iff)
qed

lemma threadId_same: "ctx_threadId (execContext st) = Some t \<Longrightarrow> \<not> threadIdChanged st t"
  by (simp add: equalsCudaFocus_def split: thread_ref.splits)

lemma apply_change_keys: "map fst (apply_change ch m) = map fst m"
proof (cases "map_of m (ch_name ch)")
  case None
  then show ?thesis by (simp add: apply_change_def)
next
  case (Some vo)
  then have "ch_name ch \<in> fst ` set m" by (force dest: map_of_SomeD)
  with Some show ?thesis by (simp add: apply_change_def map_set_keys)
qed

lemma fold_apply_change_keys: "map fst (fold apply_change chs m) = map fst m"
  by (induction chs arbitrary: m) (simp_all add: apply_change_keys)

lemma updateLocals_effect:
  assumes "gdb_defined st"
  shows "issued (snd (snd (updateLocals be st w))) = issued w @ [VarUpdateAll]
       \<and> map fst (byName (fst (snd (updateLocals be st w)))) = map fst (byName st)"
  using assms issued_issue [of VarUpdateAll "varUpdate be" w]
  by (auto simp: updateLocals_def update_def fold_apply_change_keys split: prod.splits sum.splits)


lemma getCurrentFunction_cases:
  "(\<not> gdb_defined st \<and> getCurrentFunction be st t w = (Inl ''TypeError'', w))
   \<or> (gdb_defined st
       \<and> issued (snd (getCurrentFunction be st t w))
           = issued w @ [StackListFrames (case t of HostThread n \<Rightarrow> Some n | DeviceFocus f \<Rightarrow> None)])"
proof (cases "gdb_defined st")
  case False
  then show ?thesis by (simp add: getCurrentFunction_def)
next
  case True
  define q where "q = (case t of HostThread n \<Rightarrow> Some n | DeviceFocus f \<Rightarrow> None)"
  have "issued (snd (getCurrentFunction be st t w)) = issued w @ [StackListFrames q]"
    using True issued_issue [of "StackListFrames q" "stackListFrames be q" w]
    by (auto simp: getCurrentFunction_def q_def [symmetric] split: prod.splits sum.splits list.splits)
  with True show ?thesis by (simp add: q_def)
qed

lemma validate_unchanged:
  assumes g: "gdb_defined st"
    and t: "ctx_threadId (execContext st) = Some t"
    and f: "ctx_frameId (execContext st) = Some fid"
    and rest: "resumed (execContext st) \<noteq> Some False \<Longrightarrow>
         fn = functionName (execContext st) \<and> fn \<noteq> None \<and> fn \<noteq> Some [] \<and>
         distinct (map fst (stored_shape st)) \<and>
         (case stackListVariables be (stack_query t fid) (bstate w) of
            (Inl e, b) \<Rightarrow> True
          | (Inr ls, b) \<Rightarrow> same_names_and_types ls (stored_shape st))"
  shows "issued (snd (snd (validate be t fid fn st w)))
           = issued w @ (if resumed (execContext st) = Some False then [VarUpdateAll]
                         else StackListVariables (stack_query t fid) #
                              (case fst (stackListVariables be (stack_query t fid) (bstate w)) of
                                 Inl e \<Rightarrow> []
                               | Inr ls \<Rightarrow> [VarUpdateAll]))
       \<and> map fst (byName (fst (snd (validate be t fid fn st w)))) = map fst (byName st)"
proof (cases "resumed (execContext st) = Some False")
  case True
  with g t f threadId_same [OF t] updateLocals_effect [OF g, of be w] show ?thesis
    by (simp add: validate_def)
next
  case False
  note r = rest [OF False]
  define q where "q = stack_query t fid"
  obtain res w1 where s: "issue (StackListVariables q) (stackListVariables be q) w = (res, w1)"
    by (cases "issue (StackListVariables q) (stackListVariables be q) w")
  then have iw: "issued w1 = issued w @ [StackListVariables q]"
    using issued_issue [of "StackListVariables q" "stackListVariables be q" w] by simp
  have res: "res = fst (stackListVariables be q (bstate w))"
    using s by (auto simp: issue_def split: prod.splits)
  have v: "validate be t fid fn st w =
      (case res of
         Inl e \<Rightarrow> (Inl e, st, w1)
       | Inr ls \<Rightarrow>
           if \<not> (invalidate_early st t fid fn \<or> shape_differs st ls) then updateLocals be st w1
           else (case clear be Local st w1 of
                   (Inl e, st2, w2) \<Rightarrow> (Inl e, st2, w2)
                 | (Inr u, st2, w2) \<Rightarrow>
                     (case createLocals be ls st2 w2 of
                        (Inl e, st3, w3) \<Rightarrow> (Inl e, st3, w3)
                      | (Inr u', st3, w3) \<Rightarrow>
                          (Inr (), st3\<lparr>execContext := \<lparr>ctx_threadId = Some t, ctx_frameId = Some fid,
                                         resumed = Some False, functionName = fn\<rparr>\<rparr>, w3))))"
    using g False s by (simp add: validate_def q_def stack_query_def split: sum.splits)
  show ?thesis
  proof (cases res)
    case (Inl e)
    with res have fe: "fst (stackListVariables be (stack_query t fid) (bstate w)) = Inl e"
      by (simp add: q_def)
    from v Inl iw False show ?thesis by (simp add: fe q_def)
  next
    case (Inr ls)
    with res have fl: "fst (stackListVariables be (stack_query t fid) (bstate w)) = Inr ls"
      by (simp add: q_def)
    from Inr res r have ls: "same_names_and_types ls (stored_shape st)"
      by (cases "stackListVariables be q (bstate w)") (auto simp: q_def)
    have early: "\<not> invalidate_early st t fid fn"
      using r f threadId_same [OF t] by (auto simp: invalidate_early_def)
    have shape: "\<not> shape_differs st ls" using r ls same_shape_kept by blast
    from v Inr early shape have "validate be t fid fn st w = updateLocals be st w1" by simp
    with updateLocals_effect [OF g, of be w1] iw False show ?thesis by (simp add: fl q_def)
  qed
qed

lemma getLocals_unchanged:
  assumes "request_unchanged be t fid st w" "names_usable be t fid st w"
  shows "issued (snd (snd (getLocals be (Some t) fid st w))) = issued w @ refresh_commands be t fid st w
       \<and> map fst (byName (fst (snd (getLocals be (Some t) fid st w)))) = map fst (byName st)"
proof (cases "gdb_defined st")
  case False
  with getCurrentFunction_cases [of st be t w] show ?thesis
    by (simp add: getLocals_def refresh_commands_def)
next
  case g: True
  obtain res w1 where c: "getCurrentFunction be st t w = (res, w1)"
    by (cases "getCurrentFunction be st t w")
  from getCurrentFunction_cases [of st be t w] g c
  have w1: "issued w1 = issued w @ [StackListFrames (case t of HostThread n \<Rightarrow> Some n | DeviceFocus f \<Rightarrow> None)]"
    by simp
  show ?thesis
  proof (cases res)
    case (Inl e)
    with c w1 g show ?thesis by (simp add: getLocals_def refresh_commands_def)
  next
    case (Inr fn)
    from assms c Inr
    have v: "issued (snd (snd (validate be t fid fn st w1)))
           = issued w1 @ (if resumed (execContext st) = Some False then [VarUpdateAll]
                         else StackListVariables (stack_query t fid) #
                              (case fst (stackListVariables be (stack_query t fid) (bstate w1)) of
                                 Inl e \<Rightarrow> []
                               | Inr ls \<Rightarrow> [VarUpdateAll]))
       \<and> map fst (byName (fst (snd (validate be t fid fn st w1)))) = map fst (byName st)"
      by (intro validate_unchanged [OF g])
         (auto simp: request_unchanged_def names_usable_def)
    obtain r2 st2 w2 where vv: "validate be t fid fn st w1 = (r2, st2, w2)"
      by (cases "validate be t fid fn st w1")
    with v c Inr w1 g show ?thesis
      by (auto simp: getLocals_def refresh_commands_def split: sum.splits)
  qed
qed

lemma refresh_commands_no_create_or_delete:
  "filter is_create_or_delete (refresh_commands be t fid st w) = []"
  by (auto simp: refresh_commands_def split: prod.splits sum.splits)

lemma refresh_trace_no_create_or_delete:
  "filter is_create_or_delete (refresh_trace be es st w) = []"
proof (induction es arbitrary: st w)
  case Nil
  show ?case by simp
next
  case (Cons ev es)
  then show ?case
    by (cases ev) (auto simp: refresh_commands_no_create_or_delete split: prod.splits)
qed

text \<open>
  C1, amended: in a run of stops and locals requests in which every request finds the
  focus, the frame and the resolved function equal to those of the execution context
  and the listed stack locals equal in names and types, in whatever order, to the
  stored local objects, and in which moreover the function has a non-empty name and
  the local names are pairwise distinct, the commands issued are those of the cheap
  path and no others: per request the two stack queries (the second only when the
  context is marked resumed) and then the refresh, a failing query ending its
  request. So no variable object is created or deleted, and the store holds the same
  variable objects afterwards.
\<close>

theorem unchanged_requests_keep_objects:
  assumes "all_requests (\<lambda>t fid st w. request_unchanged be t fid st w \<and> names_usable be t fid st w)
             be es st w"
  shows "issued (snd (run_events be es st w)) = issued w @ refresh_trace be es st w
       \<and> filter is_create_or_delete (issued (snd (run_events be es st w)))
           = filter is_create_or_delete (issued w)
       \<and> map fst (byName (fst (run_events be es st w))) = map fst (byName st)"
proof -
  have run: "issued (snd (run_events be es st w)) = issued w @ refresh_trace be es st w
       \<and> map fst (byName (fst (run_events be es st w))) = map fst (byName st)"
    using assms
  proof (induction es arbitrary: st w)
    case Nil
    then show ?case by simp
  next
    case (Cons ev es)
    show ?case
    proof (cases ev)
      case (Stopped b)
      with Cons.prems Cons.IH [of "st\<lparr>execContext := (execContext st)\<lparr>resumed := Some True\<rparr>\<rparr>" "w\<lparr>bstate := b\<rparr>"]
      show ?thesis by simp
    next
      case (LocalsRequest t fid)
      obtain r st' w' where gl: "getLocals be (Some t) fid st w = (r, st', w')"
        by (cases "getLocals be (Some t) fid st w")
      from Cons.prems LocalsRequest gl
      have u: "request_unchanged be t fid st w" "names_usable be t fid st w"
        and later: "all_requests (\<lambda>t fid st w. request_unchanged be t fid st w \<and> names_usable be t fid st w)
               be es st' w'" by auto
      from getLocals_unchanged [OF u] gl have
        ys: "issued w' = issued w @ refresh_commands be t fid st w"
        "map fst (byName st') = map fst (byName st)" by auto
      with Cons.IH [OF later] LocalsRequest gl show ?thesis by simp
    qed
  qed
  then show ?thesis by (simp add: refresh_trace_no_create_or_delete)
qed

theorem unchanged_requests_keep_objects_witness:
  "all_requests (\<lambda>t fid st w. request_unchanged reordering_backend t fid st w
                               \<and> names_usable reordering_backend t fid st w)
     reordering_backend (stop_and_request reordering_backend)
     (fst (first_request reordering_backend)) (snd (first_request reordering_backend))
   \<and> issued (snd (run_events reordering_backend (stop_and_request reordering_backend)
                    (fst (first_request reordering_backend)) (snd (first_request reordering_backend))))
     = [StackListFrames (Some 1), StackListVariables (Some (1, 0)), VarCreate ''x'', VarCreate ''y'',
        StackListFrames (Some 1), StackListVariables (Some (1, 0)), VarUpdateAll]"
proof -
  have h: "all_requests (\<lambda>t fid st w. request_unchanged reordering_backend t fid st w
                               \<and> names_usable reordering_backend t fid st w)
     reordering_backend (stop_and_request reordering_backend)
     (fst (first_request reordering_backend)) (snd (first_request reordering_backend))"
    by code_simp
  have i: "issued (snd (first_request reordering_backend))
             @ refresh_trace reordering_backend (stop_and_request reordering_backend)
                 (fst (first_request reordering_backend)) (snd (first_request reordering_backend))
     = [StackListFrames (Some 1), StackListVariables (Some (1, 0)), VarCreate ''x'', VarCreate ''y'',
        StackListFrames (Some 1), StackListVariables (Some (1, 0)), VarUpdateAll]"
    by code_simp
  from unchanged_requests_keep_objects [OF h] i h show ?thesis by simp
qed

text \<open>Two runs of a first request, a stop and a second request.\<close>

lemma unnamed_run:
  "all_requests (request_unchanged unnamed_backend) unnamed_backend (stop_and_request unnamed_backend)
     (fst (first_request unnamed_backend)) (snd (first_request unnamed_backend))
   \<and> issued (snd (run_events unnamed_backend (stop_and_request unnamed_backend)
                    (fst (first_request unnamed_backend)) (snd (first_request unnamed_backend))))
     = [StackListFrames (Some 1), StackListVariables (Some (1, 0)), VarCreate ''x'',
        StackListFrames (Some 1), StackListVariables (Some (1, 0)), VarDelete ''v'', VarCreate ''x'']"
  by code_simp

lemma shadowing_run:
  "all_requests (request_unchanged shadowing_backend) shadowing_backend (stop_and_request shadowing_backend)
     (fst (first_request shadowing_backend)) (snd (first_request shadowing_backend))
   \<and> issued (snd (run_events shadowing_backend (stop_and_request shadowing_backend)
                    (fst (first_request shadowing_backend)) (snd (first_request shadowing_backend))))
     = [StackListFrames (Some 1), StackListVariables (Some (1, 0)), VarCreate ''x'', VarCreate ''x'',
        StackListFrames (Some 1), StackListVariables (Some (1, 0)),
        VarDelete ''v'', VarDelete ''vv'', VarCreate ''x'', VarCreate ''x'']"
  by code_simp

text \<open>
  C1, as stated: the first run is a frame without a function name, the second a name
  declared twice. In both, the second request finds focus, frame, function and the
  names and types of the locals as stored, and yet deletes and creates the objects.
\<close>

theorem unchanged_request_recreates_counterexample:
  "(all_requests (request_unchanged unnamed_backend) unnamed_backend (stop_and_request unnamed_backend)
      (fst (first_request unnamed_backend)) (snd (first_request unnamed_backend))
    \<and> issued (snd (run_events unnamed_backend (stop_and_request unnamed_backend)
                     (fst (first_request unnamed_backend)) (snd (first_request unnamed_backend))))
      = [StackListFrames (Some 1), StackListVariables (Some (1, 0)), VarCreate ''x'',
         StackListFrames (Some 1), StackListVariables (Some (1, 0)), VarDelete ''v'', VarCreate ''x''])
   \<and> (all_requests (request_unchanged shadowing_backend) shadowing_backend (stop_and_request shadowing_backend)
        (fst (first_request shadowing_backend)) (snd (first_request shadowing_backend))
      \<and> issued (snd (run_events shadowing_backend (stop_and_request shadowing_backend)
                       (fst (first_request shadowing_backend)) (snd (first_request shadowing_backend))))
        = [StackListFrames (Some 1), StackListVariables (Some (1, 0)), VarCreate ''x'', VarCreate ''x'',
           StackListFrames (Some 1), StackListVariables (Some (1, 0)),
           VarDelete ''v'', VarDelete ''vv'', VarCreate ''x'', VarCreate ''x''])"
  using unnamed_run shadowing_run by blast


subsection \<open>The execution queue runs its tasks in turn\<close>

lemma in_turn_append: "in_turn (xs @ ys) = in_turn xs @ in_turn ys"
  by (simp add: in_turn_def)

lemma submitted_append: "submitted (evs @ evs') = submitted evs @ submitted evs'"
  by (induction evs rule: submitted.induct) simp_all

lemma processQueue_from_spec:
  "i \<le> length q \<Longrightarrow>
   \<exists>outs. snd (processQueue_from q i obs)
            = obs @ in_turn outs @ (case fst (processQueue_from q i obs) of
                                      None \<Rightarrow> []
                                    | Some k \<Rightarrow> [Started (item_id (q ! k))])
        \<and> (case fst (processQueue_from q i obs) of
              None \<Rightarrow> map fst outs = map item_id (drop i q)
            | Some k \<Rightarrow> k < length q \<and> map fst outs @ map item_id (drop k q) = map item_id (drop i q))"
proof (induction q i obs rule: processQueue_from.induct)
  case (1 q i obs)
  show ?case
  proof (cases "i < length q")
    case False
    then have eq: "processQueue_from q i obs = (None, obs)"
      by (simp add: processQueue_from.simps [of q i obs])
    from False "1.prems" have "drop i q = []" by simp
    with eq show ?thesis by (intro exI [of _ "[]"]) (simp add: in_turn_def)
  next
    case True
    show ?thesis
    proof (cases "item_fn (q ! i)")
      case ReturnsAwaitable
      with True have eq: "processQueue_from q i obs = (Some i, obs @ [Started (item_id (q ! i))])"
        by (simp add: processQueue_from.simps [of q i obs])
      with True show ?thesis by (intro exI [of _ "[]"]) (simp add: in_turn_def)
    next
      case (ThrowsAtCall error)
      let ?obs = "obs @ [Started (item_id (q ! i)), Delivered (item_id (q ! i)) (Rejected error)]"
      from True have "Suc i \<le> length q" by simp
      from "1.IH" [OF True ThrowsAtCall this] obtain outs where
        o: "snd (processQueue_from q (Suc i) ?obs)
            = ?obs @ in_turn outs @ (case fst (processQueue_from q (Suc i) ?obs) of
                                      None \<Rightarrow> []
                                    | Some k \<Rightarrow> [Started (item_id (q ! k))])"
        "(case fst (processQueue_from q (Suc i) ?obs) of
              None \<Rightarrow> map fst outs = map item_id (drop (Suc i) q)
            | Some k \<Rightarrow> k < length q \<and> map fst outs @ map item_id (drop k q) = map item_id (drop (Suc i) q))"
        by blast
      have unfold: "processQueue_from q i obs = processQueue_from q (Suc i) ?obs"
        using True ThrowsAtCall by (simp add: processQueue_from.simps [of q i obs])
      have d: "drop i q = q ! i # drop (Suc i) q" using True by (simp add: Cons_nth_drop_Suc)
      let ?outs = "(item_id (q ! i), Rejected error) # outs"
      have "snd (processQueue_from q i obs)
            = obs @ in_turn ?outs @ (case fst (processQueue_from q i obs) of
                                      None \<Rightarrow> []
                                    | Some k \<Rightarrow> [Started (item_id (q ! k))])"
        using o(1) unfold by (simp add: in_turn_def)
      moreover have "(case fst (processQueue_from q i obs) of
              None \<Rightarrow> map fst ?outs = map item_id (drop i q)
            | Some k \<Rightarrow> k < length q \<and> map fst ?outs @ map item_id (drop k q) = map item_id (drop i q))"
        using o(2) unfold d by (auto split: option.splits)
      ultimately show ?thesis by blast
    qed
  qed
qed


lemma resume_loop_orderly:
  assumes "i \<le> length (queue s)"
    and "obs = in_turn outs"
    and "map fst outs @ map item_id (drop i (queue s)) = subm"
    and "submitted evs = subm"
  shows "orderly evs (resume_loop i obs s)"
proof -
  from processQueue_from_spec [OF assms(1), of obs] obtain outs2 where
    o: "snd (processQueue_from (queue s) i obs)
          = obs @ in_turn outs2 @ (case fst (processQueue_from (queue s) i obs) of
                                      None \<Rightarrow> []
                                    | Some k \<Rightarrow> [Started (item_id (queue s ! k))])"
       "(case fst (processQueue_from (queue s) i obs) of
              None \<Rightarrow> map fst outs2 = map item_id (drop i (queue s))
            | Some k \<Rightarrow> k < length (queue s)
                \<and> map fst outs2 @ map item_id (drop k (queue s)) = map item_id (drop i (queue s)))"
    by blast
  obtain res obs' where p: "processQueue_from (queue s) i obs = (res, obs')"
    by (cases "processQueue_from (queue s) i obs")
  show ?thesis
  proof (cases res)
    case None
    with p o assms show ?thesis
      unfolding orderly_def resume_loop_def
      by (intro exI [of _ "outs @ outs2"]) (auto simp: in_turn_append)
  next
    case (Some k)
    with p o assms show ?thesis
      unfolding orderly_def resume_loop_def
      by (intro exI [of _ "outs @ outs2"]) (auto simp: in_turn_append)
  qed
qed

lemma orderly_step:
  assumes "orderly evs s"
  shows "orderly (evs @ [e]) (queue_step s e)"
proof -
  from assms obtain outs where
    obs: "observed s = in_turn outs @ (case awaiting s of
                                            None \<Rightarrow> []
                                          | Some i \<Rightarrow> [Started (item_id (queue s ! i))])"
    and rest: "(case awaiting s of
                 None \<Rightarrow> queue s = [] \<and> map fst outs = submitted evs
               | Some i \<Rightarrow> i < length (queue s)
                            \<and> map fst outs @ map item_id (drop i (queue s)) = submitted evs)"
    unfolding orderly_def by blast
  show ?thesis
  proof (cases e)
    case (Submit it)
    show ?thesis
    proof (cases "awaiting s")
      case None
      with rest obs have q: "queue s = []" "map fst outs = submitted evs" "observed s = in_turn outs"
        by simp_all
      let ?s1 = "s\<lparr>queue := queue s @ [it]\<rparr>"
      have "orderly (evs @ [e]) (resume_loop 0 (observed ?s1) ?s1)"
        using q Submit
        by (intro resume_loop_orderly [where outs = outs and subm = "submitted evs @ [item_id it]"])
           (simp_all add: submitted_append)
      with q Submit show ?thesis by (simp add: execute_def Let_def)
    next
      case (Some i)
      with rest have i: "i < length (queue s)"
        "map fst outs @ map item_id (drop i (queue s)) = submitted evs" by simp_all
      from i(1) have "length (queue s @ [it]) \<noteq> 1" by auto
      then have ex: "execute it s = s\<lparr>queue := queue s @ [it]\<rparr>"
        by (simp add: execute_def Let_def)
      show ?thesis
        unfolding orderly_def
        using Some obs i Submit ex
        by (intro exI [of _ outs]) (simp add: nth_append submitted_append)
    qed
  next
    case (Settle outcome)
    show ?thesis
    proof (cases "awaiting s")
      case None
      with assms Settle show ?thesis
        by (simp add: settle_def orderly_def submitted_append)
    next
      case (Some i)
      with rest obs have i: "i < length (queue s)"
        "map fst outs @ map item_id (drop i (queue s)) = submitted evs"
        "observed s = in_turn outs @ [Started (item_id (queue s ! i))]" by simp_all
      let ?outs = "outs @ [(item_id (queue s ! i), outcome)]"
      have d: "drop i (queue s) = queue s ! i # drop (Suc i) (queue s)"
        using i(1) by (simp add: Cons_nth_drop_Suc)
      have "orderly (evs @ [e])
              (resume_loop (Suc i) (observed s @ [Delivered (item_id (queue s ! i)) outcome]) s)"
        using i d Settle
        by (intro resume_loop_orderly [where outs = ?outs and subm = "submitted evs"])
           (simp_all add: in_turn_def submitted_append)
      with Some show ?thesis using Settle by (simp add: settle_def)
    qed
  qed
qed

lemma run_queue_orderly: "orderly evs (run_queue evs)"
proof (induction evs rule: rev_induct)
  case Nil
  show ?case by (simp add: run_queue_def orderly_def empty_queue_def in_turn_def)
next
  case (snoc e evs)
  from orderly_step [OF snoc.IH, of e] show ?case by (simp add: run_queue_def)
qed


text \<open>The loop observes exactly the calls of the tasks from its index on, in their turn.\<close>

lemma processQueue_from_observed:
  "snd (processQueue_from q i obs) = obs @ called_in_turn (drop i q)"
proof (induction q i obs rule: processQueue_from.induct)
  case (1 q i obs)
  show ?case
  proof (cases "i < length q")
    case False
    then have "processQueue_from q i obs = (None, obs)"
      by (simp add: processQueue_from.simps [of q i obs])
    with False show ?thesis by simp
  next
    case True
    then have d: "drop i q = q ! i # drop (Suc i) q" by (simp add: Cons_nth_drop_Suc)
    show ?thesis
    proof (cases "item_fn (q ! i)")
      case ReturnsAwaitable
      with True have "processQueue_from q i obs = (Some i, obs @ [Started (item_id (q ! i))])"
        by (simp add: processQueue_from.simps [of q i obs])
      with ReturnsAwaitable d show ?thesis by simp
    next
      case (ThrowsAtCall error)
      let ?obs = "obs @ [Started (item_id (q ! i)), Delivered (item_id (q ! i)) (Rejected error)]"
      have "processQueue_from q i obs = processQueue_from q (Suc i) ?obs"
        using True ThrowsAtCall by (simp add: processQueue_from.simps [of q i obs])
      with "1.IH" [OF True ThrowsAtCall] ThrowsAtCall d show ?thesis by simp
    qed
  qed
qed

lemma observed_resume_loop:
  "observed (resume_loop i obs s) = obs @ called_in_turn (drop i (queue s))"
  using processQueue_from_observed [of "queue s" i obs]
  by (auto simp: resume_loop_def split: prod.splits option.splits)

lemma run_queue_snoc: "run_queue (evs @ [e]) = queue_step (run_queue evs) e"
  by (simp add: run_queue_def)

text \<open>
  An outcome that arrives while a task is running is handed to that task, and the
  tasks behind it are called in their turn; with no task running nothing happens.
\<close>

lemma settle_delivers:
  "(case awaiting s of
      None \<Rightarrow> settle outcome s = s
    | Some i \<Rightarrow>
        observed (settle outcome s)
          = observed s @ Delivered (item_id (queue s ! i)) outcome
                          # called_in_turn (drop (Suc i) (queue s)))"
  by (simp add: settle_def observed_resume_loop split: option.splits)

text \<open>
  A task submitted to an idle queue is called at once; a task submitted while another
  is running only joins the array.
\<close>

lemma execute_appends:
  assumes "orderly evs s"
  shows "observed (execute it s)
           = observed s @ (case awaiting s of None \<Rightarrow> called_in_turn [it] | Some i \<Rightarrow> [])"
proof (cases "awaiting s")
  case None
  with assms have q: "queue s = []" by (auto simp: orderly_def)
  then have "execute it s = resume_loop 0 (observed s) (s\<lparr>queue := [it]\<rparr>)"
    by (simp add: execute_def Let_def)
  with None show ?thesis by (simp add: observed_resume_loop)
next
  case (Some i)
  with assms have "i < length (queue s)" by (auto simp: orderly_def)
  then have "length (queue s @ [it]) \<noteq> 1" by auto
  with Some show ?thesis by (simp add: execute_def Let_def)
qed

text \<open>A task that fails hands the loop on to the next task in the array.\<close>

lemma rejection_continues:
  assumes "awaiting s = Some i" "Suc i < length (queue s)"
    and "item_fn (queue s ! Suc i) = ReturnsAwaitable"
  shows "settle (Rejected error) s
     = s\<lparr>awaiting := Some (Suc i),
          observed := observed s @ [Delivered (item_id (queue s ! i)) (Rejected error),
                                    Started (item_id (queue s ! Suc i))]\<rparr>"
  using assms
  by (simp add: settle_def resume_loop_def
        processQueue_from.simps [of "queue s" "Suc i"
          "observed s @ [Delivered (item_id (queue s ! i)) (Rejected error)]"])

lemma three_tasks_run:
  "observed (run_queue
     [Submit \<lparr>item_id = 1, item_fn = ReturnsAwaitable\<rparr>,
      Submit \<lparr>item_id = 2, item_fn = ReturnsAwaitable\<rparr>,
      Submit \<lparr>item_id = 3, item_fn = ReturnsAwaitable\<rparr>,
      Settle (Resolved (10::nat)), Settle (Rejected ''failed''), Settle (Resolved 30)])
   = [Started 1, Delivered 1 (Resolved 10), Started 2, Delivered 2 (Rejected ''failed''),
      Started 3, Delivered 3 (Resolved 30)]"
  by code_simp

text \<open>
  C4: whatever tasks are submitted and however their outcomes arrive in between, the
  observations are: the tasks that have finished, in the order of their arrival, each
  called and then settled before the next task is called; then the call of the running
  task, if there is one. The tasks not called yet wait behind it in the array in the
  order of their arrival, and when no task is running every submitted task has been
  called and settled. An outcome, result or rejection, that arrives next is delivered
  to the running task and to no other, and right after it the tasks waiting behind are
  called in their turn; with no task running it changes nothing. A task submitted next
  is called at once when no task is running, and otherwise waits without being called.
\<close>

theorem execution_queue_in_arrival_order:
  "(\<exists>outs. observed (run_queue evs)
             = in_turn outs @ (case awaiting (run_queue evs) of
                                 None \<Rightarrow> []
                               | Some i \<Rightarrow> [Started (item_id (queue (run_queue evs) ! i))])
          \<and> (case awaiting (run_queue evs) of
                None \<Rightarrow> queue (run_queue evs) = [] \<and> map fst outs = submitted evs
              | Some i \<Rightarrow> i < length (queue (run_queue evs))
                           \<and> map fst outs @ map item_id (drop i (queue (run_queue evs))) = submitted evs))
   \<and> (\<forall>outcome.
         case awaiting (run_queue evs) of
           None \<Rightarrow> run_queue (evs @ [Settle outcome]) = run_queue evs
         | Some i \<Rightarrow>
             observed (run_queue (evs @ [Settle outcome]))
               = observed (run_queue evs)
                 @ Delivered (item_id (queue (run_queue evs) ! i)) outcome
                   # called_in_turn (drop (Suc i) (queue (run_queue evs))))
   \<and> (\<forall>it. observed (run_queue (evs @ [Submit it]))
               = observed (run_queue evs)
                 @ (case awaiting (run_queue evs) of None \<Rightarrow> called_in_turn [it] | Some i \<Rightarrow> []))"
proof (intro conjI allI)
  show "\<exists>outs. observed (run_queue evs)
             = in_turn outs @ (case awaiting (run_queue evs) of
                                 None \<Rightarrow> []
                               | Some i \<Rightarrow> [Started (item_id (queue (run_queue evs) ! i))])
          \<and> (case awaiting (run_queue evs) of
                None \<Rightarrow> queue (run_queue evs) = [] \<and> map fst outs = submitted evs
              | Some i \<Rightarrow> i < length (queue (run_queue evs))
                           \<and> map fst outs @ map item_id (drop i (queue (run_queue evs))) = submitted evs)"
    using run_queue_orderly [of evs] unfolding orderly_def .
next
  fix outcome :: "'a settled"
  show "case awaiting (run_queue evs) of
           None \<Rightarrow> run_queue (evs @ [Settle outcome]) = run_queue evs
         | Some i \<Rightarrow>
             observed (run_queue (evs @ [Settle outcome]))
               = observed (run_queue evs)
                 @ Delivered (item_id (queue (run_queue evs) ! i)) outcome
                   # called_in_turn (drop (Suc i) (queue (run_queue evs)))"
    using settle_delivers [where s = "run_queue evs" and outcome = outcome]
    by (auto simp: run_queue_snoc split: option.splits)
next
  fix it
  show "observed (run_queue (evs @ [Submit it]))
               = observed (run_queue evs)
                 @ (case awaiting (run_queue evs) of None \<Rightarrow> called_in_turn [it] | Some i \<Rightarrow> [])"
    using execute_appends [OF run_queue_orderly [of evs], where it = it]
    by (auto simp: run_queue_snoc split: option.splits)
qed

theorem execution_queue_in_arrival_order_witness:
  "observed (run_queue
     [Submit \<lparr>item_id = 1, item_fn = ReturnsAwaitable\<rparr>,
      Submit \<lparr>item_id = 2, item_fn = ReturnsAwaitable\<rparr>,
      Settle (Rejected ''failed'' :: nat settled)])
   = [Started 1, Delivered 1 (Rejected ''failed''), Started 2]"
proof -
  let ?evs = "[Submit \<lparr>item_id = 1, item_fn = ReturnsAwaitable\<rparr>,
               Submit \<lparr>item_id = 2, item_fn = ReturnsAwaitable\<rparr>] :: nat queue_event list"
  have a: "awaiting (run_queue ?evs) = Some 0" by code_simp
  have q: "queue (run_queue ?evs)
             = [\<lparr>item_id = 1, item_fn = ReturnsAwaitable\<rparr>, \<lparr>item_id = 2, item_fn = ReturnsAwaitable\<rparr>]"
    by code_simp
  have o: "observed (run_queue ?evs) = [Started 1]" by code_simp
  from execution_queue_in_arrival_order [of ?evs]
  have "\<forall>outcome.
         case awaiting (run_queue ?evs) of
           None \<Rightarrow> run_queue (?evs @ [Settle outcome]) = run_queue ?evs
         | Some i \<Rightarrow>
             observed (run_queue (?evs @ [Settle outcome]))
               = observed (run_queue ?evs)
                 @ Delivered (item_id (queue (run_queue ?evs) ! i)) outcome
                   # called_in_turn (drop (Suc i) (queue (run_queue ?evs)))"
    by blast
  from this [rule_format, of "Rejected ''failed''"] a q o show ?thesis by simp
qed


end
